theory Spec2Isabelle
  imports Main "HOL-Library.Word" "HOL-Library.Sublist" "HOL-Library.AList"
begin

section \<open>The Azure Blob backend of the virtual filesystem\<close>

text \<open>
  This part embeds \<^verbatim>\<open>storage_azure_blob.cc\<close>: the class \<^verbatim>\<open>AzureBlob\<close>, one
  implementation of the filesystem capability set. Every method becomes a function that
  takes the object (its working directory, its map of pending block lists, the remote
  container behind its client) and returns the return code together with the object
  after the call.
\<close>

subsection \<open>Return codes and logged errors\<close>

datatype rc = TILEDB_FS_OK | TILEDB_FS_ERR

text \<open>
  One constructor per message passed to \<^verbatim>\<open>AZ_BLOB_ERROR(MSG, PATH)\<close>. The macro
  records the message and the path; it does not return.
\<close>

datatype az_error =
    Directory_already_exists
  | Parent_directory_to_path_does_not_exist
  | Cannot_create_directory
  | Cannot_delete_non_existent_dir
  | File_still_exists_after_deletion
  | Could_not_get_file_properties
  | File_does_not_exist
  | Cannot_read_past_the_file_size
  | Read_result_error
  | Could_not_create_zero_length_file
  | Parent_dir_does_not_seem_to_exist
  | Buffer_size_too_large_for_azure_upload
  | Upload_result_error
  | Could_not_sync_path_with_put_block_list

subsection \<open>The remote container and the storage client\<close>

type_synonym byte = "8 word"

text \<open>
  Modelled from the spec: block ids. \<^verbatim>\<open>generate_block_ids\<close> is declared in the class
  header, which is not part of the sources at hand; the spec only says that each block
  is "tagged with a deterministic id". A block id is modelled as the running number of
  the block in the pending block list of its file.
\<close>

type_synonym block_id = nat

type_synonym blocks = "(block_id \<times> byte list) list"

text \<open>
  The requests that \<^verbatim>\<open>AzureBlob\<close> sends through the storage client and that either
  change the container or move data. The container keeps them in the order sent, so that
  a statement such as "no block upload is attempted" can be made about a call.
\<close>

datatype sdk_request =
    Create_append_blob string
  | Upload_block_from_buffer string block_id "byte list"
  | Put_block_list string "block_id list"
  | Delete_blob string
  | Download_blob_to_stream string nat nat
  | Download_blob_to_buffer string nat nat nat

text \<open>
  The container: committed blobs (each one the list of its committed blocks, in listing
  order), the uncommitted blocks staged for each blob name, and the requests received.
  A blob's bytes are the concatenation of its committed blocks.

  The storage client (\<^verbatim>\<open>blob_client\<close>, \<^verbatim>\<open>blob_client_wrapper\<close>) is a dependency of
  the repository, not code of it. Its calls are modelled below by what the blob service
  does to this container: a block upload stages a block without touching the committed
  blob, the block-list commit replaces the blob by the listed blocks, a range GET
  answers with the bytes of the blob that lie in the requested range, and any request may
  be rejected.
\<close>

record blob_store =
  blobs :: "(string \<times> blocks) list"
  staged :: "(string \<times> blocks) list"
  requests :: "sdk_request list"

text \<open>
  What the translation unit uses and does not define: the helpers of \<^verbatim>\<open>utils.h\<close> and
  \<^verbatim>\<open>uri.h\<close> (\<^verbatim>\<open>slashify\<close>, \<^verbatim>\<open>parent_dir(NULL, _)\<close>, \<^verbatim>\<open>starts_with\<close>, the path
  component of an \<^verbatim>\<open>azure_uri\<close>), the constant \<^verbatim>\<open>constants::max_num_blocks\<close> of the
  storage client, \<^verbatim>\<open>std::thread::hardware_concurrency()\<close>, and which requests the
  service rejects. What the scheduler decides for the concurrent upload workers of
  \<^verbatim>\<open>upload_block_blob\<close> is a parameter as well: \<open>arrival_rank\<close> ranks the block
  indices by the time at which their upload reaches the service, and \<open>in_flight\<close> is
  the number of uploads of other workers that are under way when an upload fails. They
  are parameters of the embedding: every theorem below holds for all of them, unless it
  says otherwise.
\<close>

record az_env =
  slashify :: "string \<Rightarrow> string"
  parent_dir :: "string \<Rightarrow> string"
  starts_with :: "string \<Rightarrow> string \<Rightarrow> bool"
  uri_path :: "string \<Rightarrow> string"
  max_num_blocks :: nat
  hardware_concurrency :: nat
  rejected :: "sdk_request \<Rightarrow> bool"
  arrival_rank :: "nat \<Rightarrow> nat"
  in_flight :: nat

definition blob_data :: "blocks \<Rightarrow> byte list" where
  "blob_data bs = concat (map snd bs)"

definition blob_exists :: "blob_store \<Rightarrow> string \<Rightarrow> bool" where
  "blob_exists st blob = (map_of (blobs st) blob \<noteq> None)"

text \<open>\<^verbatim>\<open>get_blob_property\<close>: \<open>None\<close> stands for a property that is not \<^verbatim>\<open>valid()\<close>.\<close>

definition get_blob_property :: "blob_store \<Rightarrow> string \<Rightarrow> nat option" where
  "get_blob_property st blob = map_option (\<lambda>bs. length (blob_data bs)) (map_of (blobs st) blob)"

text \<open>
  \<^verbatim>\<open>list_blobs_segmented(container, "/", "", prefix, max_results)\<close>: the blobs whose name
  starts with the prefix, those with a further \<^verbatim>\<open>/\<close> after it rolled up into one
  directory entry per common prefix. An entry is its name and its \<^verbatim>\<open>is_directory\<close> flag.
\<close>

definition list_blobs_segmented :: "blob_store \<Rightarrow> string \<Rightarrow> nat \<Rightarrow> (string \<times> bool) list" where
  "list_blobs_segmented st pfx max_results =
     take max_results (remdups (map
       (\<lambda>n. let rest = drop (length pfx) n
            in if CHR ''/'' \<in> set rest
               then (pfx @ takeWhile (\<lambda>c. c \<noteq> CHR ''/'') rest @ ''/'', True)
               else (n, False))
       (filter (prefix pfx) (map fst (blobs st)))))"

definition sent :: "sdk_request \<Rightarrow> blob_store \<Rightarrow> blob_store" where
  "sent r st = st\<lparr>requests := requests st @ [r]\<rparr>"

definition delete_blob :: "az_env \<Rightarrow> blob_store \<Rightarrow> string \<Rightarrow> blob_store" where
  "delete_blob E st blob =
     (if rejected E (Delete_blob blob) then sent (Delete_blob blob) st
      else sent (Delete_blob blob) (st\<lparr>blobs := AList.delete blob (blobs st)\<rparr>))"

definition create_append_blob :: "az_env \<Rightarrow> blob_store \<Rightarrow> string \<Rightarrow> bool \<times> blob_store" where
  "create_append_blob E st blob =
     (if rejected E (Create_append_blob blob) then (False, sent (Create_append_blob blob) st)
      else (True, sent (Create_append_blob blob) (st\<lparr>blobs := AList.update blob [] (blobs st)\<rparr>)))"

definition staged_blocks :: "blob_store \<Rightarrow> string \<Rightarrow> blocks" where
  "staged_blocks st blob = (case map_of (staged st) blob of None \<Rightarrow> [] | Some bs \<Rightarrow> bs)"

definition upload_block_from_buffer ::
  "az_env \<Rightarrow> blob_store \<Rightarrow> string \<Rightarrow> block_id \<Rightarrow> byte list \<Rightarrow> bool \<times> blob_store" where
  "upload_block_from_buffer E st blob bid data =
     (if rejected E (Upload_block_from_buffer blob bid data)
      then (False, sent (Upload_block_from_buffer blob bid data) st)
      else (True, sent (Upload_block_from_buffer blob bid data)
              (st\<lparr>staged := AList.update blob (AList.update bid data (staged_blocks st blob)) (staged st)\<rparr>)))"

text \<open>
  \<^verbatim>\<open>put_block_list\<close>: every listed id is looked up among the staged blocks of the blob
  first and among its committed blocks second; when all are found the listed blocks, in
  the listed order, become the blob and the staging area of the blob is emptied.
\<close>

definition committed_blocks :: "blob_store \<Rightarrow> string \<Rightarrow> blocks" where
  "committed_blocks st blob = (case map_of (blobs st) blob of None \<Rightarrow> [] | Some bs \<Rightarrow> bs)"

definition put_block_list ::
  "az_env \<Rightarrow> blob_store \<Rightarrow> string \<Rightarrow> block_id list \<Rightarrow> bool \<times> blob_store" where
  "put_block_list E st blob ids =
     (if rejected E (Put_block_list blob ids) then (False, sent (Put_block_list blob ids) st)
      else case those (map (map_of (staged_blocks st blob @ committed_blocks st blob)) ids) of
             None \<Rightarrow> (False, sent (Put_block_list blob ids) st)
           | Some ds \<Rightarrow>
               (True, sent (Put_block_list blob ids)
                  (st\<lparr>blobs := AList.update blob (zip ids ds) (blobs st),
                      staged := AList.delete blob (staged st)\<rparr>)))"

text \<open>
  A range GET for \<open>len\<close> bytes from \<open>off\<close> on answers with the bytes of the blob in
  that range. The service does not promise \<open>len\<close> bytes: a range that starts inside the
  blob and runs past its end is answered with the bytes up to the end, fewer than asked
  for. The request fails when it is rejected, when the blob is missing, and when the
  range starts at or after the end of the blob.
\<close>

definition range_of_blob :: "blob_store \<Rightarrow> string \<Rightarrow> nat \<Rightarrow> nat \<Rightarrow> byte list option" where
  "range_of_blob st blob off len =
     (case map_of (blobs st) blob of
        None \<Rightarrow> None
      | Some bs \<Rightarrow>
          if off < length (blob_data bs) then Some (take len (drop off (blob_data bs)))
          else None)"

definition download_blob_to_stream ::
  "az_env \<Rightarrow> blob_store \<Rightarrow> string \<Rightarrow> nat \<Rightarrow> nat \<Rightarrow> byte list option \<times> blob_store" where
  "download_blob_to_stream E st blob off len =
     (if rejected E (Download_blob_to_stream blob off len) then None
      else range_of_blob st blob off len,
      sent (Download_blob_to_stream blob off len) st)"

definition download_blob_to_buffer ::
  "az_env \<Rightarrow> blob_store \<Rightarrow> string \<Rightarrow> nat \<Rightarrow> nat \<Rightarrow> nat \<Rightarrow> byte list option \<times> blob_store" where
  "download_blob_to_buffer E st blob off len parallelism =
     (if rejected E (Download_blob_to_buffer blob off len parallelism) then None
      else range_of_blob st blob off len,
      sent (Download_blob_to_buffer blob off len parallelism) st)"

subsection \<open>The AzureBlob object\<close>

record AzureBlob =
  working_dir :: string
  write_map :: "string \<rightharpoonup> block_id list"
  bc :: blob_store
  tiledb_fs_errmsg :: "(az_error \<times> string) list"

definition AZ_BLOB_ERROR :: "az_error \<Rightarrow> string \<Rightarrow> AzureBlob \<Rightarrow> AzureBlob" where
  "AZ_BLOB_ERROR msg path fs = fs\<lparr>tiledb_fs_errmsg := tiledb_fs_errmsg fs @ [(msg, path)]\<rparr>"

definition MARKER :: string where
  "MARKER = ''.dir.marker''"

definition GRAIN_SIZE :: nat where
  "GRAIN_SIZE = 4 * 1024 * 1024"

text \<open>\<^verbatim>\<open>s.find(pat) != std::string::npos\<close>\<close>

fun str_contains :: "string \<Rightarrow> string \<Rightarrow> bool" where
  "str_contains pat [] = (pat = [])"
| "str_contains pat (c # cs) = (prefix pat (c # cs) \<or> str_contains pat cs)"

text \<open>
  \<^verbatim>\<open>get_path\<close>. \<^verbatim>\<open>pathname[0]\<close> of an empty \<^verbatim>\<open>std::string\<close> is the terminating
  \<^verbatim>\<open>'\0'\<close>, so the test for a leading slash is false there.
\<close>

definition get_path :: "az_env \<Rightarrow> AzureBlob \<Rightarrow> string \<Rightarrow> string" where
  "get_path E fs path =
     (let pathname = (if str_contains ''://'' path then uri_path E path else path)
      in if str_contains ''://'' path \<and> pathname = [] then []
         else if pathname \<noteq> [] \<and> hd pathname = CHR ''/'' then tl pathname
         else if pathname = [] then working_dir fs
         else if starts_with E pathname (working_dir fs) then pathname
         else working_dir fs @ CHR ''/'' # pathname)"

definition is_file :: "az_env \<Rightarrow> AzureBlob \<Rightarrow> string \<Rightarrow> bool" where
  "is_file E fs file = blob_exists (bc fs) (get_path E fs file)"

definition is_dir :: "az_env \<Rightarrow> AzureBlob \<Rightarrow> string \<Rightarrow> bool" where
  "is_dir E fs dir =
     (if dir = [] \<or> get_path E fs dir = [] \<or> is_file E fs (slashify E dir @ MARKER) then True
      else list_blobs_segmented (bc fs) (slashify E (get_path E fs dir)) 1 \<noteq> [])"

definition locking_support :: "AzureBlob \<Rightarrow> bool" where
  "locking_support fs = False"

subsection \<open>Reading\<close>

text \<open>
  \<^verbatim>\<open>file_size\<close> returns the size of the blob or \<^verbatim>\<open>TILEDB_FS_ERR\<close>, here \<open>None\<close>.
\<close>

definition file_size :: "az_env \<Rightarrow> AzureBlob \<Rightarrow> string \<Rightarrow> nat option \<times> AzureBlob" where
  "file_size E fs filename =
     (case get_blob_property (bc fs) (get_path E fs filename) of
        Some n \<Rightarrow> (Some n, fs)
      | None \<Rightarrow> (None, AZ_BLOB_ERROR Could_not_get_file_properties filename fs))"

text \<open>
  \<^verbatim>\<open>read_from_file(filename, offset, buffer, length)\<close>. \<^verbatim>\<open>offset\<close> is an \<^verbatim>\<open>off_t\<close> and
  \<^verbatim>\<open>length\<close> a \<^verbatim>\<open>size_t\<close>, both 64 bits wide; the test against the file size adds them as
  signed 64-bit integers (\<^verbatim>\<open>(ssize_t)length + offset\<close>), which wraps around. The client
  takes both as \<^verbatim>\<open>unsigned long long\<close>. The caller's buffer is the list \<open>buffer\<close>; a
  download writes the bytes received over its beginning, and a failed call is modelled as
  leaving the buffer as it was. The return code follows \<^verbatim>\<open>read_result.success()\<close>
  alone: the source does not compare the number of bytes received with \<^verbatim>\<open>length\<close>.
\<close>

definition read_from_file ::
  "az_env \<Rightarrow> AzureBlob \<Rightarrow> string \<Rightarrow> 64 word \<Rightarrow> byte list \<Rightarrow> 64 word \<Rightarrow> rc \<times> byte list \<times> AzureBlob" where
  "read_from_file E fs filename offset buffer len =
     (if \<not> is_file E fs filename
      then (TILEDB_FS_ERR, buffer, AZ_BLOB_ERROR File_does_not_exist filename fs)
      else
        let path = get_path E fs filename
        in case file_size E fs filename of
             (None, fs1) \<Rightarrow> (TILEDB_FS_ERR, buffer, AZ_BLOB_ERROR File_does_not_exist filename fs1)
           | (Some filesize, fs1) \<Rightarrow>
               if int filesize < sint (len + offset)
               then (TILEDB_FS_ERR, buffer, AZ_BLOB_ERROR Cannot_read_past_the_file_size filename fs1)
               else if len = 0 then (TILEDB_FS_OK, buffer, fs1)
               else
                 case (if filesize < GRAIN_SIZE
                       then download_blob_to_stream E (bc fs1) path (unat offset) (unat len)
                       else download_blob_to_buffer E (bc fs1) path (unat offset) (unat len)
                              (hardware_concurrency E div 2)) of
                   (None, st') \<Rightarrow>
                     (TILEDB_FS_ERR, buffer, AZ_BLOB_ERROR Read_result_error filename (fs1\<lparr>bc := st'\<rparr>))
                 | (Some data, st') \<Rightarrow>
                     (TILEDB_FS_OK, data @ drop (length data) buffer, fs1\<lparr>bc := st'\<rparr>))"

text \<open>
  The one request \<^verbatim>\<open>read_from_file\<close> sends once its checks have passed, for a file
  of the given size: the branch of the source on \<^verbatim>\<open>filesize < GRAIN_SIZE\<close>.
\<close>

definition read_request :: "az_env \<Rightarrow> AzureBlob \<Rightarrow> string \<Rightarrow> 64 word \<Rightarrow> 64 word \<Rightarrow> nat \<Rightarrow> sdk_request" where
  "read_request E fs f offset len filesize =
     (if filesize < GRAIN_SIZE
      then Download_blob_to_stream (get_path E fs f) (unat offset) (unat len)
      else Download_blob_to_buffer (get_path E fs f) (unat offset) (unat len) (hardware_concurrency E div 2))"

subsection \<open>Writing\<close>

text \<open>
  Modelled from the spec: \<^verbatim>\<open>constants::max_block_size\<close> and
  \<^verbatim>\<open>constants::default_block_size\<close> belong to the storage client, which is not part of
  the sources at hand. The spec bounds a block by 100 MiB; the constructor of
  \<^verbatim>\<open>AzureBlob\<close> annotates the two constants with \<^verbatim>\<open>// 100M\<close> and \<^verbatim>\<open>// 8M\<close>.
\<close>

definition max_block_size :: nat where
  "max_block_size = 100 * 1024 * 1024"

definition default_block_size :: nat where
  "default_block_size = 8 * 1024 * 1024"

text \<open>
  The client is built with \<^verbatim>\<open>std::thread::hardware_concurrency()\<close> as its concurrency
  (constructor of \<^verbatim>\<open>AzureBlob\<close>).
\<close>

definition concurrency :: "az_env \<Rightarrow> nat" where
  "concurrency E = hardware_concurrency E"

text \<open>
  The body of the loop of a worker of \<^verbatim>\<open>upload_block_blob\<close>, for the block index \<open>i\<close>
  it has taken: block \<open>i\<close> is the slice of the buffer that starts at \<open>block_size * i\<close>
  and has \<open>min block_size (blob_size - block_size * i)\<close> bytes, uploaded under
  \<open>block_ids[i]\<close>. The difference is taken in \<^verbatim>\<open>uint64_t\<close>; for the block indices
  \<^verbatim>\<open>write_to_file\<close> asks for, \<open>block_size * i\<close> stays below the size of the buffer.
\<close>

definition block_slice :: "nat \<Rightarrow> byte list \<Rightarrow> nat \<Rightarrow> byte list" where
  "block_slice block_size buffer i =
     (let block_buffer = drop (block_size * i) buffer;
          sz = min block_size (length buffer - block_size * i)
      in take sz block_buffer)"

text \<open>
  \<^verbatim>\<open>upload_block_blob\<close> starts \<open>min parallelism concurrency\<close> workers
  (\<open>upload_workers\<close>) with \<^verbatim>\<open>std::async\<close>. Each worker takes the next block index
  from the shared atomic counter, stops when the index is beyond the last block or the
  shared \<^verbatim>\<open>failed\<close> flag is set, and uploads its block otherwise; the last worker to
  finish fulfils the promise with the first failure, if any. The workers run
  concurrently, so the order in which the uploads reach the service is not fixed by the
  source: every block index is taken exactly once, and the uploads arrive in the order
  of their \<open>arrival_rank\<close>, which may be any order (\<open>arrival_order\<close> is a permutation
  of the block indices whatever the ranks are). A single worker uploads the blocks in
  index order.
\<close>

definition upload_workers :: "az_env \<Rightarrow> nat \<Rightarrow> nat" where
  "upload_workers E parallelism = min parallelism (concurrency E)"

definition arrival_order :: "az_env \<Rightarrow> nat \<Rightarrow> nat \<Rightarrow> nat list" where
  "arrival_order E workers num_blocks =
     (if workers \<le> 1 then [0..<num_blocks] else sort_key (arrival_rank E) [0..<num_blocks])"

text \<open>
  The uploads that are under way when the \<^verbatim>\<open>failed\<close> flag is set: their workers
  passed the test of the flag before, so these blocks are still sent; a second failure
  leaves the recorded reason as it is. An index beyond the vector of ids is undefined
  behaviour in the source and \<open>None\<close> here.
\<close>

fun upload_in_flight ::
  "az_env \<Rightarrow> string \<Rightarrow> nat \<Rightarrow> block_id list \<Rightarrow> byte list \<Rightarrow> nat list \<Rightarrow> blob_store
     \<Rightarrow> blob_store option" where
  "upload_in_flight E blob block_size block_ids buffer [] st = Some st"
| "upload_in_flight E blob block_size block_ids buffer (i # is) st =
     (if length block_ids \<le> i then None
      else upload_in_flight E blob block_size block_ids buffer is
             (snd (upload_block_from_buffer E st blob (block_ids ! i) (block_slice block_size buffer i))))"

text \<open>
  The uploads of all workers, in the order in which they reach the service. After the
  first failed upload no worker takes a further block; at most one upload per other
  worker is still under way.
\<close>

fun upload_blocks ::
  "az_env \<Rightarrow> string \<Rightarrow> nat \<Rightarrow> block_id list \<Rightarrow> byte list \<Rightarrow> nat \<Rightarrow> nat list \<Rightarrow> blob_store
     \<Rightarrow> (bool \<times> blob_store) option" where
  "upload_blocks E blob block_size block_ids buffer workers [] st = Some (True, st)"
| "upload_blocks E blob block_size block_ids buffer workers (i # is) st =
     (if length block_ids \<le> i then None
      else
        case upload_block_from_buffer E st blob (block_ids ! i) (block_slice block_size buffer i) of
          (True, st') \<Rightarrow> upload_blocks E blob block_size block_ids buffer workers is st'
        | (False, st') \<Rightarrow>
            map_option (Pair False)
              (upload_in_flight E blob block_size block_ids buffer
                 (take (min (in_flight E) (workers - 1)) is) st'))"

text \<open>
  With no worker at all nobody fulfils the promise, and the caller's \<^verbatim>\<open>get()\<close> does
  not return a result: \<open>None\<close>.
\<close>

definition upload_block_blob ::
  "az_env \<Rightarrow> blob_store \<Rightarrow> string \<Rightarrow> nat \<Rightarrow> nat \<Rightarrow> block_id list \<Rightarrow> byte list \<Rightarrow> nat
     \<Rightarrow> (bool \<times> blob_store) option" where
  "upload_block_blob E st blob block_size num_blocks block_ids buffer parallelism =
     (if upload_workers E parallelism = 0 then None
      else upload_blocks E blob block_size block_ids buffer (upload_workers E parallelism)
             (arrival_order E (upload_workers E parallelism) num_blocks) st)"

text \<open>
  Modelled from the spec: \<^verbatim>\<open>generate_block_ids(path, num_blocks)\<close>, declared in the
  class header, which is not part of the sources at hand. The spec asks for a
  deterministic id per block, and \<^verbatim>\<open>commit_file\<close> reads the pending ids of a path from
  \<^verbatim>\<open>write_map_\<close>: the ids are the next \<open>num_blocks\<close> running numbers of the path, appended
  to its entry of the map.
\<close>

definition pending :: "AzureBlob \<Rightarrow> string \<Rightarrow> block_id list" where
  "pending fs path = (case write_map fs path of None \<Rightarrow> [] | Some ids \<Rightarrow> ids)"

definition generate_block_ids :: "AzureBlob \<Rightarrow> string \<Rightarrow> nat \<Rightarrow> block_id list \<times> AzureBlob" where
  "generate_block_ids fs path num_blocks =
     (let ids = [length (pending fs path) ..< length (pending fs path) + num_blocks]
      in (ids, fs\<lparr>write_map := (write_map fs)(path \<mapsto> pending fs path @ ids)\<rparr>))"

text \<open>
  The block size and the number of blocks \<^verbatim>\<open>write_to_file\<close> computes for a buffer. The
  source computes in \<^verbatim>\<open>uint64_t\<close> and casts the count to \<^verbatim>\<open>int\<close>; the embedding uses
  natural numbers (lemma \<open>upload_plan_fits\<close> below: nothing wraps for a buffer within the
  limit and a block count limit below \<open>2 ^ 27\<close>).
\<close>

definition upload_block_size :: "az_env \<Rightarrow> nat \<Rightarrow> nat" where
  "upload_block_size E buffer_size =
     max (min ((buffer_size div max_num_blocks E + GRAIN_SIZE - 1) div GRAIN_SIZE * GRAIN_SIZE)
              max_block_size)
         default_block_size"

definition upload_num_blocks :: "az_env \<Rightarrow> nat \<Rightarrow> nat" where
  "upload_num_blocks E buffer_size =
     (buffer_size + upload_block_size E buffer_size - 1) div upload_block_size E buffer_size"

text \<open>
  \<^verbatim>\<open>write_to_file(filename, buffer, buffer_size)\<close>; \<open>buffer_size\<close> is the length of the
  list. \<open>None\<close>: the call does not return a code (no upload worker, or the division by a
  block count limit of zero).
\<close>

definition write_to_file ::
  "az_env \<Rightarrow> AzureBlob \<Rightarrow> string \<Rightarrow> byte list \<Rightarrow> (rc \<times> AzureBlob) option" where
  "write_to_file E fs filename buffer =
     (let path = get_path E fs filename; buffer_size = length buffer
      in if buffer_size = 0 \<and> \<not> blob_exists (bc fs) path then
           (case create_append_blob E (bc fs) path of
              (False, st') \<Rightarrow>
                Some (TILEDB_FS_ERR, AZ_BLOB_ERROR Could_not_create_zero_length_file path (fs\<lparr>bc := st'\<rparr>))
            | (True, st') \<Rightarrow> Some (TILEDB_FS_OK, fs\<lparr>bc := st'\<rparr>))
         else if \<not> is_dir E fs (parent_dir E filename) then
           Some (TILEDB_FS_ERR, AZ_BLOB_ERROR Parent_dir_does_not_seem_to_exist path fs)
         else if buffer_size > max_num_blocks E * max_block_size then
           Some (TILEDB_FS_ERR, AZ_BLOB_ERROR Buffer_size_too_large_for_azure_upload path fs)
         else if max_num_blocks E = 0 then None
         else
           let block_size = upload_block_size E buffer_size;
               num_blocks = upload_num_blocks E buffer_size;
               (block_ids, fs1) = generate_block_ids fs path num_blocks
           in case upload_block_blob E (bc fs1) path block_size num_blocks block_ids buffer
                     (hardware_concurrency E div 2) of
                None \<Rightarrow> None
              | Some (False, st') \<Rightarrow> Some (TILEDB_FS_ERR, AZ_BLOB_ERROR Upload_result_error path (fs1\<lparr>bc := st'\<rparr>))
              | Some (True, st') \<Rightarrow> Some (TILEDB_FS_OK, fs1\<lparr>bc := st'\<rparr>))"

subsection \<open>Committing\<close>

definition commit_file :: "az_env \<Rightarrow> AzureBlob \<Rightarrow> string \<Rightarrow> rc \<times> AzureBlob" where
  "commit_file E fs path =
     (let filepath = get_path E fs path
      in case write_map fs filepath of
           None \<Rightarrow> (TILEDB_FS_OK, fs)
         | Some block_list \<Rightarrow>
             (case put_block_list E (bc fs) filepath block_list of
                (False, st') \<Rightarrow>
                  (TILEDB_FS_ERR,
                   (AZ_BLOB_ERROR Could_not_sync_path_with_put_block_list filepath (fs\<lparr>bc := st'\<rparr>))
                     \<lparr>write_map := (write_map fs)(filepath := None)\<rparr>)
              | (True, st') \<Rightarrow>
                  (TILEDB_FS_OK, fs\<lparr>bc := st', write_map := (write_map fs)(filepath := None)\<rparr>)))"

definition sync_path :: "az_env \<Rightarrow> AzureBlob \<Rightarrow> string \<Rightarrow> rc \<times> AzureBlob" where
  "sync_path E fs path = commit_file E fs path"

subsection \<open>Directories\<close>

definition create_dir :: "az_env \<Rightarrow> AzureBlob \<Rightarrow> string \<Rightarrow> (rc \<times> AzureBlob) option" where
  "create_dir E fs dir =
     (if get_path E fs dir = [] then Some (TILEDB_FS_OK, fs)
      else if is_dir E fs dir then Some (TILEDB_FS_ERR, AZ_BLOB_ERROR Directory_already_exists dir fs)
      else if str_contains ''://'' (slashify E dir) \<and> uri_path E (slashify E dir) = []
      then Some (TILEDB_FS_OK, fs)
      else if working_dir fs \<noteq> dir \<and> \<not> is_dir E fs (parent_dir E dir)
      then Some (TILEDB_FS_ERR, AZ_BLOB_ERROR Parent_directory_to_path_does_not_exist dir fs)
      else
        case write_to_file E fs (slashify E dir @ MARKER) [] of
          None \<Rightarrow> None
        | Some (r, fs1) \<Rightarrow>
            if r = TILEDB_FS_OK \<and> is_dir E fs1 dir then Some (TILEDB_FS_OK, fs1)
            else Some (TILEDB_FS_ERR, AZ_BLOB_ERROR Cannot_create_directory dir fs1))"

definition INT_MAX :: nat where
  "INT_MAX = 2147483647"

text \<open>
  The loop of \<^verbatim>\<open>delete_dir\<close> over the entries of the listing. \<open>recurse\<close> is the
  recursive call for a directory entry; its return code is dropped, as in the source.
  \<open>None\<close>: the recursion did not come back.
\<close>

fun delete_entries ::
  "(AzureBlob \<Rightarrow> string \<Rightarrow> (rc \<times> AzureBlob) option) \<Rightarrow> az_env \<Rightarrow> AzureBlob
     \<Rightarrow> (string \<times> bool) list \<Rightarrow> AzureBlob option" where
  "delete_entries recurse E fs [] = Some fs"
| "delete_entries recurse E fs ((name, is_directory) # rest) =
     (if is_directory then
        (case recurse fs name of
           None \<Rightarrow> None
         | Some (r, fs') \<Rightarrow> delete_entries recurse E fs' rest)
      else
        let fs1 = fs\<lparr>bc := delete_blob E (bc fs) name\<rparr>;
            fs2 = (if blob_exists (bc fs1) name
                   then AZ_BLOB_ERROR File_still_exists_after_deletion name fs1 else fs1)
        in delete_entries recurse E fs2 rest)"

text \<open>
  \<^verbatim>\<open>delete_dir\<close>. The source recurses into directory entries without a bound; the first
  argument bounds the depth of the recursion, and \<open>None\<close> says that the bound was too
  small. The continuation token stays empty in the source, so the \<^verbatim>\<open>do\<close> loop runs
  once. The variable \<^verbatim>\<open>rc\<close> is initialised to \<^verbatim>\<open>TILEDB_FS_OK\<close> and returned; no
  statement of the source assigns to it.
\<close>

primrec delete_dir :: "nat \<Rightarrow> az_env \<Rightarrow> AzureBlob \<Rightarrow> string \<Rightarrow> (rc \<times> AzureBlob) option" where
  "delete_dir 0 E fs dir = None"
| "delete_dir (Suc depth) E fs dir =
     (if \<not> is_dir E fs dir
      then Some (TILEDB_FS_ERR, AZ_BLOB_ERROR Cannot_delete_non_existent_dir dir fs)
      else
        case delete_entries (delete_dir depth E) E fs
               (list_blobs_segmented (bc fs) (slashify E (get_path E fs dir)) INT_MAX) of
          None \<Rightarrow> None
        | Some fs' \<Rightarrow> Some (TILEDB_FS_OK, fs'))"

subsection \<open>A reference environment\<close>

text \<open>
  One instance of the parameters, used to run the embedding on concrete inputs. The
  helpers follow their names: \<open>slashify_ref\<close> appends a slash unless the path ends in
  one, \<open>parent_dir_ref\<close> cuts the last component of a path, \<open>uri_path_ref\<close> is what
  follows the host of an \<^verbatim>\<open>az://container@account.blob.core.windows.net/path\<close> URI.
  The block count limit is the service's 50000. The uploads arrive in index order, and
  no upload is under way when one fails.
\<close>

definition slashify_ref :: "string \<Rightarrow> string" where
  "slashify_ref path =
     (if path = [] then ''/'' else if last path = CHR ''/'' then path else path @ ''/'')"

definition parent_dir_ref :: "string \<Rightarrow> string" where
  "parent_dir_ref dir =
     (let d = (if dir \<noteq> [] \<and> last dir = CHR ''/'' then butlast dir else dir)
      in rev (tl (dropWhile (\<lambda>c. c \<noteq> CHR ''/'') (rev d))))"

definition uri_path_ref :: "string \<Rightarrow> string" where
  "uri_path_ref uri = dropWhile (\<lambda>c. c \<noteq> CHR ''/'') (drop 5 uri)"

definition env_ref :: "nat \<Rightarrow> (sdk_request \<Rightarrow> bool) \<Rightarrow> az_env" where
  "env_ref hw rej =
     \<lparr>slashify = slashify_ref, parent_dir = parent_dir_ref,
      starts_with = (\<lambda>s p. prefix p s), uri_path = uri_path_ref,
      max_num_blocks = 50000, hardware_concurrency = hw, rejected = rej,
      arrival_rank = (\<lambda>i. i), in_flight = 0\<rparr>"

definition fs_ref :: "string \<Rightarrow> (string \<times> blocks) list \<Rightarrow> AzureBlob" where
  "fs_ref wd bs =
     \<lparr>working_dir = wd, write_map = Map.empty,
      bc = \<lparr>blobs = bs, staged = [], requests = []\<rparr>, tiledb_fs_errmsg = []\<rparr>"

section \<open>The image panel example\<close>

text \<open>
  This part embeds \<^verbatim>\<open>check_results\<close> of \<^verbatim>\<open>tiledb_image_read_panels.cc\<close>, which
  compares the buffer read from the array \<^verbatim>\<open>panelimage\<close> with a palette of nine
  colours, and models the array that is read.
\<close>

subsection \<open>The check of the example\<close>

type_synonym int32 = "32 word"

text \<open>The arrays \<^verbatim>\<open>R\<close>, \<^verbatim>\<open>G\<close> and \<^verbatim>\<open>B\<close> of the source: entries 0 to 8 and the unused grey.\<close>

definition R_palette :: "int32 list" where
  "R_palette = [0, 201, 234, 233, 255, 255, 101, 12, 0, 130]"

definition G_palette :: "int32 list" where
  "G_palette = [0, 23, 85, 82, 255, 234, 49, 2, 85, 130]"

definition B_palette :: "int32 list" where
  "B_palette = [0, 30, 6, 149, 255, 0, 142, 196, 46, 130]"

text \<open>
  The variables of the four nested loops: the read positions \<^verbatim>\<open>p\<close>, \<^verbatim>\<open>q\<close> and
  \<^verbatim>\<open>r\<close> in the three channel planes, the error count and the error counts per panel.
\<close>

record check_state =
  p_idx :: nat
  q_idx :: nat
  r_idx :: nat
  errors :: nat
  Rerrs :: "nat list"
  Gerrs :: "nat list"
  Berrs :: "nat list"

text \<open>The body of the innermost loop, for panel \<open>j\<close>.\<close>

definition check_pixel :: "int32 list \<Rightarrow> nat \<Rightarrow> check_state \<Rightarrow> check_state" where
  "check_pixel l_data j st =
     (let st1 = (if l_data ! p_idx st \<noteq> R_palette ! j
                 then st\<lparr>Rerrs := (Rerrs st)[j := Rerrs st ! j + 1], errors := errors st + 1\<rparr>
                 else st);
          st2 = (if l_data ! q_idx st \<noteq> G_palette ! j
                 then st1\<lparr>Gerrs := (Gerrs st1)[j := Gerrs st1 ! j + 1], errors := errors st1 + 1\<rparr>
                 else st1);
          st3 = (if l_data ! r_idx st \<noteq> B_palette ! j
                 then st2\<lparr>Berrs := (Berrs st2)[j := Berrs st2 ! j + 1], errors := errors st2 + 1\<rparr>
                 else st2)
      in st3\<lparr>p_idx := p_idx st + 1, q_idx := q_idx st + 1, r_idx := r_idx st + 1\<rparr>)"

text \<open>The three comparisons of the loop body hold at the positions \<open>p\<close>, \<open>q\<close> and \<open>r\<close>.\<close>

definition pixel_ok :: "int32 list \<Rightarrow> nat \<Rightarrow> nat \<Rightarrow> nat \<Rightarrow> nat \<Rightarrow> bool" where
  "pixel_ok l_data j p q r =
     (l_data ! p = R_palette ! j \<and> l_data ! q = G_palette ! j \<and> l_data ! r = B_palette ! j)"

text \<open>
  \<^verbatim>\<open>check_results(buffer_image)\<close>: the loops over \<^verbatim>\<open>c = 0, 3, 6\<close>, \<^verbatim>\<open>i < width/3\<close>,
  \<^verbatim>\<open>j = c, c+1, c+2\<close> and \<^verbatim>\<open>k < height/3\<close>, and the state they end in. The source reads
  \<open>3 * width * height\<close> integers, which \<^verbatim>\<open>main\<close> allocates; on a shorter buffer the
  reads are out of bounds, and the embedding gives \<open>None\<close>. The source prints
  "Check SUCCESSFUL" exactly when \<^verbatim>\<open>errors\<close> is 0.
\<close>

definition check_results :: "int32 list \<Rightarrow> check_state option" where
  "check_results buffer_image =
     (let width = 300; height = 300
      in if length buffer_image < 3 * width * height then None
         else Some (fold (\<lambda>c. fold (\<lambda>i. fold (\<lambda>j. fold (\<lambda>k. check_pixel buffer_image j)
                                                  [0..<height div 3])
                                        [c..<c + 3])
                              [0..<width div 3])
                      [0, 3, 6]
                      \<lparr>p_idx = 0, q_idx = width * height, r_idx = 2 * width * height, errors = 0,
                       Rerrs = replicate 9 0, Gerrs = replicate 9 0, Berrs = replicate 9 0\<rparr>))"

definition check_successful :: "int32 list \<Rightarrow> bool" where
  "check_successful buffer_image =
     (case check_results buffer_image of None \<Rightarrow> False | Some st \<Rightarrow> errors st = 0)"

subsection \<open>The array behind the example\<close>

text \<open>
  Modelled from the spec: the dense array of the example and its coordinate algebra. The
  array engine (\<^verbatim>\<open>tiledb_array_read\<close>, the writer of the example, the fragment files)
  is not part of the sources at hand. By the spec the array of the example has the
  domain [0,299] x [0,299] and the tile extent 100 x 100, so there are three tiles along
  each axis. For a cell coordinate \<open>c = (c\<^sub>1, c\<^sub>2)\<close> the spec gives the tile id as the sum
  over the axes \<open>i\<close> of \<open>(c\<^sub>i - lo\<^sub>i) div e\<^sub>i\<close> times the product of the numbers of tiles
  along the axes \<open>j < i\<close>, and the position inside the tile as the sum over the axes \<open>i\<close>
  of \<open>c\<^sub>i - tile_lo\<^sub>i\<close> times the product of the extents of the axes \<open>j > i\<close>.
\<close>

type_synonym coord = "nat \<times> nat"

definition dom_lo :: nat where
  "dom_lo = 0"

definition dom_hi :: nat where
  "dom_hi = 299"

definition tile_extent :: nat where
  "tile_extent = 100"

definition tiles_per_axis :: nat where
  "tiles_per_axis = (dom_hi + 1 - dom_lo) div tile_extent"

definition in_domain :: "coord \<Rightarrow> bool" where
  "in_domain c = (dom_lo \<le> fst c \<and> fst c \<le> dom_hi \<and> dom_lo \<le> snd c \<and> snd c \<le> dom_hi)"

definition tile_id :: "coord \<Rightarrow> nat" where
  "tile_id c = (fst c - dom_lo) div tile_extent * 1 + (snd c - dom_lo) div tile_extent * tiles_per_axis"

definition tile_lo :: "nat \<Rightarrow> nat" where
  "tile_lo x = dom_lo + (x - dom_lo) div tile_extent * tile_extent"

definition cell_pos :: "coord \<Rightarrow> nat" where
  "cell_pos c = (fst c - tile_lo (fst c)) * tile_extent + (snd c - tile_lo (snd c)) * 1"

text \<open>
  Modelled from the spec: a dense tile holds exactly the product of the extents in cells
  "at a fixed position in the tile grid", so the coordinate of the cell at position \<open>k\<close>
  of tile \<open>t\<close> follows from \<open>t\<close> and \<open>k\<close> by grid arithmetic, the inverse of the two
  formulas above.
\<close>

definition tile_cells :: nat where
  "tile_cells = tile_extent * tile_extent"

definition num_tiles :: nat where
  "num_tiles = tiles_per_axis * tiles_per_axis"

definition cell_coord :: "nat \<Rightarrow> nat \<Rightarrow> coord" where
  "cell_coord t k =
     (dom_lo + (t mod tiles_per_axis) * tile_extent + k div tile_extent,
      dom_lo + (t div tiles_per_axis) * tile_extent + k mod tile_extent)"

text \<open>
  Modelled from the spec: the tiles of one attribute in a fragment, in tile order, each
  tile holding the values of its cells in cell order. A cell that was never written
  holds no value. The writer takes cells with their coordinates, rejects the write when
  a coordinate lies outside the domain, and places each cell at the position of its
  tile that the coordinate algebra assigns.
\<close>

type_synonym 'a tiles = "'a option list list"

definition empty_tiles :: "'a tiles" where
  "empty_tiles = replicate num_tiles (replicate tile_cells None)"

definition tiles_ok :: "'a tiles \<Rightarrow> bool" where
  "tiles_ok ts = (length ts = num_tiles \<and> list_all (\<lambda>tile. length tile = tile_cells) ts)"

definition write_cell :: "coord \<times> 'a \<Rightarrow> 'a tiles \<Rightarrow> 'a tiles" where
  "write_cell cell ts =
     ts[tile_id (fst cell) := (ts ! tile_id (fst cell))[cell_pos (fst cell) := Some (snd cell)]]"

definition write_dense :: "(coord \<times> 'a) list \<Rightarrow> 'a tiles option" where
  "write_dense cells =
     (if list_all (\<lambda>cell. in_domain (fst cell)) cells then Some (fold write_cell cells empty_tiles)
      else None)"

text \<open>
  Modelled from the spec: the read of the whole domain from one fragment. Every tile
  intersects the subarray; the reader goes through the tiles in tile order and emits
  the cells of each tile in the cell order inside the tile. A cell is emitted with its
  coordinate. No cell is skipped, since none lies outside the subarray.
\<close>

definition read_dense :: "'a tiles \<Rightarrow> (coord \<times> 'a) list" where
  "read_dense ts =
     List.map_filter (\<lambda>(t, k). map_option (\<lambda>v. (cell_coord t k, v)) (ts ! t ! k))
       (List.product [0..<num_tiles] [0..<tile_cells])"

text \<open>
  Modelled from the spec: the array of the example, with the attributes R, G and B and
  one fragment. A cell submitted to the writer carries one value per attribute.
\<close>

record panel_array =
  R_tiles :: "int32 tiles"
  G_tiles :: "int32 tiles"
  B_tiles :: "int32 tiles"

definition write_image :: "(coord \<times> int32 \<times> int32 \<times> int32) list \<Rightarrow> panel_array option" where
  "write_image cells =
     (case (write_dense (map (\<lambda>(c, r, g, b). (c, r)) cells),
            write_dense (map (\<lambda>(c, r, g, b). (c, g)) cells),
            write_dense (map (\<lambda>(c, r, g, b). (c, b)) cells)) of
        (Some rs, Some gs, Some bs) \<Rightarrow> Some \<lparr>R_tiles = rs, G_tiles = gs, B_tiles = bs\<rparr>
      | _ \<Rightarrow> None)"

text \<open>
  Modelled from the spec: the 3 by 3 colour palette image the writer wrote. The pixel
  in row \<open>row\<close> and column \<open>col\<close> lies in the panel \<open>(row div 100, col div 100)\<close>; the
  panels are numbered in row-major order, and every pixel of a panel has the colour of
  the palette entry with the number of the panel. The palette is the one of
  \<^verbatim>\<open>check_results\<close>. The pixels are submitted row by row.
\<close>

definition panel_of :: "coord \<Rightarrow> nat" where
  "panel_of c = 3 * (fst c div 100) + snd c div 100"

definition palette_image :: "(coord \<times> int32 \<times> int32 \<times> int32) list" where
  "palette_image =
     map (\<lambda>c. (c, R_palette ! panel_of c, G_palette ! panel_of c, B_palette ! panel_of c))
       (List.product [0..<300] [0..<300])"

text \<open>
  The buffer of \<^verbatim>\<open>main\<close> holds the values of R first, those of G from \<open>width * height\<close>
  on and those of B from twice that on. \<open>stream_buffer\<close> is that buffer when every
  attribute is laid out in the order in which the read above emits the cells.
\<close>

definition stream_buffer :: "panel_array \<Rightarrow> int32 list" where
  "stream_buffer a =
     map snd (read_dense (R_tiles a)) @ map snd (read_dense (G_tiles a)) @
     map snd (read_dense (B_tiles a))"

section \<open>Properties\<close>

text \<open>
  C8. The advisory-locking capability is reported false by every Azure Blob filesystem
  instance: \<^verbatim>\<open>locking_support()\<close> returns false whatever the state of the object.
\<close>

theorem locking_support_false: "\<not> locking_support fs"
  by (simp add: locking_support_def)

subsection \<open>Directories\<close>

lemma get_path_bc [simp]: "get_path E (fs\<lparr>bc := st\<rparr>) p = get_path E fs p"
  by (simp add: get_path_def Let_def)

lemma get_path_errmsg [simp]: "get_path E (AZ_BLOB_ERROR e q fs) p = get_path E fs p"
  by (simp add: get_path_def AZ_BLOB_ERROR_def Let_def)

lemma get_path_write_map [simp]: "get_path E (fs\<lparr>write_map := m\<rparr>) p = get_path E fs p"
  by (simp add: get_path_def Let_def)

lemma bc_AZ_BLOB_ERROR [simp]: "bc (AZ_BLOB_ERROR e q fs) = bc fs"
  by (simp add: AZ_BLOB_ERROR_def)

lemma write_map_AZ_BLOB_ERROR [simp]: "write_map (AZ_BLOB_ERROR e q fs) = write_map fs"
  by (simp add: AZ_BLOB_ERROR_def)

lemma working_dir_AZ_BLOB_ERROR [simp]: "working_dir (AZ_BLOB_ERROR e q fs) = working_dir fs"
  by (simp add: AZ_BLOB_ERROR_def)

lemma is_dir_AZ_BLOB_ERROR [simp]: "is_dir E (AZ_BLOB_ERROR e q fs) d = is_dir E fs d"
  by (simp add: is_dir_def is_file_def)

lemma blobs_sent [simp]: "blobs (sent r st) = blobs st"
  by (simp add: sent_def)

lemma staged_sent [simp]: "staged (sent r st) = staged st"
  by (simp add: sent_def)

lemma requests_sent [simp]: "requests (sent r st) = requests st @ [r]"
  by (simp add: sent_def)

lemma blob_exists_sent [simp]: "blob_exists (sent r st) b = blob_exists st b"
  by (simp add: blob_exists_def)

lemma listing_nonempty:
  "list_blobs_segmented st pfx 1 \<noteq> [] \<longleftrightarrow> (\<exists>n \<in> fst ` set (blobs st). prefix pfx n)"
proof -
  have "list_blobs_segmented st pfx 1 \<noteq> [] \<longleftrightarrow> filter (prefix pfx) (map fst (blobs st)) \<noteq> []"
    by (simp add: list_blobs_segmented_def take_Suc split: list.splits)
  also have "\<dots> \<longleftrightarrow> (\<exists>n \<in> fst ` set (blobs st). prefix pfx n)"
    by (auto simp: filter_empty_conv)
  finally show ?thesis .
qed

lemma is_dir_iff:
  "is_dir E fs d \<longleftrightarrow>
     d = [] \<or> get_path E fs d = [] \<or> is_file E fs (slashify E d @ MARKER) \<or>
     (\<exists>n \<in> fst ` set (blobs (bc fs)). prefix (slashify E (get_path E fs d)) n)"
  unfolding is_dir_def listing_nonempty by auto

lemma write_to_file_empty_new:
  assumes "\<not> blob_exists (bc fs) (get_path E fs f)"
  shows "write_to_file E fs f [] =
           (if rejected E (Create_append_blob (get_path E fs f))
            then Some (TILEDB_FS_ERR, AZ_BLOB_ERROR Could_not_create_zero_length_file (get_path E fs f)
                         (fs\<lparr>bc := sent (Create_append_blob (get_path E fs f)) (bc fs)\<rparr>))
            else Some (TILEDB_FS_OK,
                   fs\<lparr>bc := sent (Create_append_blob (get_path E fs f))
                           ((bc fs)\<lparr>blobs := AList.update (get_path E fs f) [] (blobs (bc fs))\<rparr>)\<rparr>))"
  using assms by (simp add: write_to_file_def create_append_blob_def Let_def)

lemma blob_exists_update [simp]:
  "blob_exists (st\<lparr>blobs := AList.update b v (blobs st)\<rparr>) b"
  by (simp add: blob_exists_def update_conv')

lemma create_dir_ok_marker:
  assumes ok: "create_dir E fs d = Some (TILEDB_FS_OK, fs')"
    and np: "get_path E fs d \<noteq> []"
    and nc: "\<not> (str_contains ''://'' (slashify E d) \<and> uri_path E (slashify E d) = [])"
  shows "is_file E fs' (slashify E d @ MARKER) \<and> is_dir E fs' d"
proof -
  from ok np have nd: "\<not> is_dir E fs d"
    by (auto simp: create_dir_def split: if_splits)
  then have nm: "\<not> blob_exists (bc fs) (get_path E fs (slashify E d @ MARKER))"
    by (simp add: is_dir_def is_file_def split: if_splits)
  from ok np nd nc nm show ?thesis
    by (auto simp: create_dir_def write_to_file_empty_new is_file_def split: if_splits)
qed


lemma create_dir_returns: "\<exists>r. create_dir E fs d = Some r"
proof (cases "is_dir E fs d")
  case True
  then show ?thesis by (simp add: create_dir_def)
next
  case False
  then have "\<not> blob_exists (bc fs) (get_path E fs (slashify E d @ MARKER))"
    by (simp add: is_dir_def is_file_def split: if_splits)
  then show ?thesis
    by (simp add: create_dir_def write_to_file_empty_new)
qed

text \<open>
  C7 (amended). On the object store a directory is a common prefix or a \<^verbatim>\<open>.dir.marker\<close>
  placeholder, and \<^verbatim>\<open>create_dir\<close> writes the marker: for every path \<open>d\<close> that does not
  denote the container itself (\<open>get_path d\<close> is not empty, and \<open>slashify d\<close> is not a URI
  with an empty path), after a successful \<^verbatim>\<open>create_dir(d)\<close> the marker object
  \<open>slashify d @ MARKER\<close> exists and \<^verbatim>\<open>is_dir(d)\<close> returns true. \<^verbatim>\<open>is_dir(d)\<close> returns
  true exactly when \<open>d\<close> is empty, or \<open>d\<close> resolves to the container root
  (\<open>get_path d\<close> is empty), or the marker blob exists, or at least one blob exists under
  the prefix \<open>slashify (get_path d)\<close>.
\<close>

theorem create_dir_writes_marker:
  "(create_dir E fs d = Some (TILEDB_FS_OK, fs') \<and> get_path E fs d \<noteq> [] \<and>
      \<not> (str_contains ''://'' (slashify E d) \<and> uri_path E (slashify E d) = [])
    \<longrightarrow> is_file E fs' (slashify E d @ MARKER) \<and> is_dir E fs' d)
   \<and> (is_dir E fs d \<longleftrightarrow>
        d = [] \<or> get_path E fs d = [] \<or> is_file E fs (slashify E d @ MARKER) \<or>
        (\<exists>n \<in> fst ` set (blobs (bc fs)). prefix (slashify E (get_path E fs d)) n))"
  using create_dir_ok_marker [of E fs d fs'] is_dir_iff [of E fs d] by blast

lemmas ref_defs = env_ref_def fs_ref_def slashify_ref_def parent_dir_ref_def uri_path_ref_def

lemma ex1: "create_dir (env_ref 4 (\<lambda>r. False)) (fs_ref ''ws'' [(''ws/.dir.marker'', [])]) ''ws/d''
      = Some (TILEDB_FS_OK,
          \<lparr>working_dir = ''ws'', write_map = Map.empty,
           bc = \<lparr>blobs = [(''ws/.dir.marker'', []), (''ws/d/.dir.marker'', [])], staged = [],
                 requests = [Create_append_blob ''ws/d/.dir.marker'']\<rparr>,
           tiledb_fs_errmsg = []\<rparr>)"
  by (simp add: ref_defs create_dir_def get_path_def is_dir_def is_file_def blob_exists_def MARKER_def
      list_blobs_segmented_def write_to_file_def create_append_blob_def sent_def Let_def)

text \<open>
  The claim as first stated fails at the path \<^verbatim>\<open>/\<close> in an empty container: it resolves
  to the container root, so \<^verbatim>\<open>create_dir\<close> succeeds without writing a marker, and
  \<^verbatim>\<open>is_dir\<close> is true although the path is not empty, no marker exists and no blob
  exists at all.
\<close>

theorem create_dir_root_counterexample:
  "create_dir (env_ref 4 (\<lambda>r. False)) (fs_ref ''ws'' []) ''/'' = Some (TILEDB_FS_OK, fs_ref ''ws'' [])
   \<and> is_dir (env_ref 4 (\<lambda>r. False)) (fs_ref ''ws'' []) ''/''
   \<and> \<not> is_file (env_ref 4 (\<lambda>r. False)) (fs_ref ''ws'' []) (slashify (env_ref 4 (\<lambda>r. False)) ''/'' @ MARKER)
   \<and> blobs (bc (fs_ref ''ws'' [])) = []"
  by (simp add: ref_defs create_dir_def get_path_def is_dir_def is_file_def blob_exists_def MARKER_def Let_def)


theorem create_dir_writes_marker_witness:
  "create_dir (env_ref 4 (\<lambda>r. False)) (fs_ref ''ws'' [(''ws/.dir.marker'', [])]) ''ws/d''
     = Some (TILEDB_FS_OK,
          \<lparr>working_dir = ''ws'', write_map = Map.empty,
           bc = \<lparr>blobs = [(''ws/.dir.marker'', []), (''ws/d/.dir.marker'', [])], staged = [],
                 requests = [Create_append_blob ''ws/d/.dir.marker'']\<rparr>,
           tiledb_fs_errmsg = []\<rparr>)
   \<and> is_file (env_ref 4 (\<lambda>r. False))
        \<lparr>working_dir = ''ws'', write_map = Map.empty,
         bc = \<lparr>blobs = [(''ws/.dir.marker'', []), (''ws/d/.dir.marker'', [])], staged = [],
               requests = [Create_append_blob ''ws/d/.dir.marker'']\<rparr>,
         tiledb_fs_errmsg = []\<rparr>
        (slashify (env_ref 4 (\<lambda>r. False)) ''ws/d'' @ MARKER)
   \<and> is_dir (env_ref 4 (\<lambda>r. False))
        \<lparr>working_dir = ''ws'', write_map = Map.empty,
         bc = \<lparr>blobs = [(''ws/.dir.marker'', []), (''ws/d/.dir.marker'', [])], staged = [],
               requests = [Create_append_blob ''ws/d/.dir.marker'']\<rparr>,
         tiledb_fs_errmsg = []\<rparr>
        ''ws/d''"
proof -
  let ?E = "env_ref 4 (\<lambda>r. False)"
  let ?fs = "fs_ref ''ws'' [(''ws/.dir.marker'', [])]"
  have p: "get_path ?E ?fs ''ws/d'' \<noteq> []"
    by (simp add: ref_defs get_path_def)
  have c: "\<not> (str_contains ''://'' (slashify ?E ''ws/d'') \<and> uri_path ?E (slashify ?E ''ws/d'') = [])"
    by (simp add: ref_defs)
  from create_dir_writes_marker [of ?E ?fs "''ws/d''"] ex1 p c show ?thesis
    by blast
qed

lemma create_dir_existing:
  assumes "is_dir E fs d" "get_path E fs d \<noteq> []"
  shows "create_dir E fs d =
           Some (TILEDB_FS_ERR, fs\<lparr>tiledb_fs_errmsg := tiledb_fs_errmsg fs @ [(Directory_already_exists, d)]\<rparr>)"
  using assms by (simp add: create_dir_def AZ_BLOB_ERROR_def)

lemma create_dir_no_parent:
  assumes "\<not> is_dir E fs d" "get_path E fs d \<noteq> []"
    "\<not> (str_contains ''://'' (slashify E d) \<and> uri_path E (slashify E d) = [])"
    "working_dir fs \<noteq> d" "\<not> is_dir E fs (parent_dir E d)"
  shows "create_dir E fs d =
           Some (TILEDB_FS_ERR,
             fs\<lparr>tiledb_fs_errmsg := tiledb_fs_errmsg fs @ [(Parent_directory_to_path_does_not_exist, d)]\<rparr>)"
  using assms by (simp add: create_dir_def AZ_BLOB_ERROR_def)

lemma create_dir_ok_parent:
  assumes "create_dir E fs d = Some (TILEDB_FS_OK, fs')"
  shows "get_path E fs d = [] \<or> (str_contains ''://'' (slashify E d) \<and> uri_path E (slashify E d) = [])
         \<or> working_dir fs = d \<or> is_dir E fs (parent_dir E d)"
  using assms by (auto simp: create_dir_def split: if_splits)

text \<open>
  C10 (amended). \<^verbatim>\<open>create_dir\<close> is not idempotent: for every path \<open>d\<close> that is already
  a directory and does not resolve to the container root, \<^verbatim>\<open>create_dir(d)\<close> returns an
  error and changes nothing but the logged error message. When \<open>d\<close> is not a directory,
  does not denote the container, is not the working directory, and its parent
  directory does not exist, \<^verbatim>\<open>create_dir(d)\<close> returns an error as well. So a
  successful \<^verbatim>\<open>create_dir(d)\<close> implies that \<open>d\<close> denotes the container, or is the
  working directory, or that the parent existed beforehand.
\<close>

theorem create_dir_not_idempotent:
  "(is_dir E fs d \<and> get_path E fs d \<noteq> [] \<longrightarrow>
      create_dir E fs d =
        Some (TILEDB_FS_ERR, fs\<lparr>tiledb_fs_errmsg := tiledb_fs_errmsg fs @ [(Directory_already_exists, d)]\<rparr>))
   \<and> (\<not> is_dir E fs d \<and> get_path E fs d \<noteq> [] \<and>
      \<not> (str_contains ''://'' (slashify E d) \<and> uri_path E (slashify E d) = []) \<and>
      working_dir fs \<noteq> d \<and> \<not> is_dir E fs (parent_dir E d) \<longrightarrow>
      create_dir E fs d =
        Some (TILEDB_FS_ERR,
          fs\<lparr>tiledb_fs_errmsg := tiledb_fs_errmsg fs @ [(Parent_directory_to_path_does_not_exist, d)]\<rparr>))
   \<and> (create_dir E fs d = Some (TILEDB_FS_OK, fs') \<longrightarrow>
        get_path E fs d = [] \<or> (str_contains ''://'' (slashify E d) \<and> uri_path E (slashify E d) = [])
        \<or> working_dir fs = d \<or> is_dir E fs (parent_dir E d))"
  using create_dir_existing [of E fs d] create_dir_no_parent [of E fs d] create_dir_ok_parent [of E fs d fs']
  by blast

text \<open>
  The claim as first stated fails at the URI of the container: it is a directory, and
  \<^verbatim>\<open>create_dir\<close> returns success on it.
\<close>

theorem create_dir_container_counterexample:
  "is_dir (env_ref 4 (\<lambda>r. False)) (fs_ref ''ws'' [(''ws/.dir.marker'', [])]) ''az://c@a.blob.core.windows.net''
   \<and> create_dir (env_ref 4 (\<lambda>r. False)) (fs_ref ''ws'' [(''ws/.dir.marker'', [])]) ''az://c@a.blob.core.windows.net''
       = Some (TILEDB_FS_OK, fs_ref ''ws'' [(''ws/.dir.marker'', [])])"
  by (simp add: ref_defs create_dir_def get_path_def is_dir_def Let_def)

theorem create_dir_not_idempotent_witness:
  "is_dir (env_ref 4 (\<lambda>r. False)) (fs_ref ''ws'' [(''ws/.dir.marker'', [])]) ''ws''
   \<and> create_dir (env_ref 4 (\<lambda>r. False)) (fs_ref ''ws'' [(''ws/.dir.marker'', [])]) ''ws''
       = Some (TILEDB_FS_ERR,
           (fs_ref ''ws'' [(''ws/.dir.marker'', [])])\<lparr>tiledb_fs_errmsg := [(Directory_already_exists, ''ws'')]\<rparr>)
   \<and> create_dir (env_ref 4 (\<lambda>r. False)) (fs_ref ''ws'' [(''ws/.dir.marker'', [])]) ''ws/a/b''
       = Some (TILEDB_FS_ERR,
           (fs_ref ''ws'' [(''ws/.dir.marker'', [])])\<lparr>tiledb_fs_errmsg :=
              [(Parent_directory_to_path_does_not_exist, ''ws/a/b'')]\<rparr>)
   \<and> is_dir (env_ref 4 (\<lambda>r. False)) (fs_ref ''ws'' [(''ws/.dir.marker'', [])])
        (parent_dir (env_ref 4 (\<lambda>r. False)) ''ws/d'')"
proof -
  let ?E = "env_ref 4 (\<lambda>r. False)"
  let ?fs = "fs_ref ''ws'' [(''ws/.dir.marker'', [])]"
  have a: "is_dir ?E ?fs ''ws'' \<and> get_path ?E ?fs ''ws'' \<noteq> []"
    by (simp add: ref_defs get_path_def is_dir_def is_file_def blob_exists_def MARKER_def)
  have b: "\<not> is_dir ?E ?fs ''ws/a/b'' \<and> get_path ?E ?fs ''ws/a/b'' \<noteq> [] \<and>
      \<not> (str_contains ''://'' (slashify ?E ''ws/a/b'') \<and> uri_path ?E (slashify ?E ''ws/a/b'') = []) \<and>
      working_dir ?fs \<noteq> ''ws/a/b'' \<and> \<not> is_dir ?E ?fs (parent_dir ?E ''ws/a/b'')"
    by (simp add: ref_defs get_path_def is_dir_def is_file_def blob_exists_def MARKER_def
        list_blobs_segmented_def)
  have c: "get_path ?E ?fs ''ws/d'' \<noteq> [] \<and>
      \<not> (str_contains ''://'' (slashify ?E ''ws/d'') \<and> uri_path ?E (slashify ?E ''ws/d'') = []) \<and>
      working_dir ?fs \<noteq> ''ws/d''"
    by (simp add: ref_defs get_path_def)
  have e: "tiledb_fs_errmsg ?fs = []"
    by (simp add: fs_ref_def)
  from create_dir_not_idempotent [of ?E ?fs "''ws''"] a e
  have 1: "create_dir ?E ?fs ''ws'' =
      Some (TILEDB_FS_ERR, ?fs\<lparr>tiledb_fs_errmsg := [(Directory_already_exists, ''ws'')]\<rparr>)"
    by simp
  from create_dir_not_idempotent [of ?E ?fs "''ws/a/b''"] b e
  have 2: "create_dir ?E ?fs ''ws/a/b'' =
      Some (TILEDB_FS_ERR, ?fs\<lparr>tiledb_fs_errmsg := [(Parent_directory_to_path_does_not_exist, ''ws/a/b'')]\<rparr>)"
    by simp
  from create_dir_not_idempotent [of ?E ?fs "''ws/d''"] ex1 c
  have 3: "is_dir ?E ?fs (parent_dir ?E ''ws/d'')"
    by blast
  from a 1 2 3 show ?thesis by blast
qed

subsection \<open>Deleting a directory\<close>

lemma delete_dir_never_fails:
  "is_dir E fs d \<Longrightarrow> delete_dir n E fs d \<noteq> Some (TILEDB_FS_ERR, fs')"
  by (cases n) (auto split: option.splits)

text \<open>
  C5. The claim asks that \<^verbatim>\<open>delete_dir\<close> return an error when the deletion of an
  object under the prefix fails, that is, when the object still exists after
  \<^verbatim>\<open>delete_blob\<close>. The source detects this case and logs "File still exists after
  deletion", but returns \<^verbatim>\<open>rc\<close>, which is never assigned: in a container where the
  service rejects the deletion of \<^verbatim>\<open>ws/d/f\<close>, \<^verbatim>\<open>delete_dir("ws/d")\<close> returns
  \<^verbatim>\<open>TILEDB_FS_OK\<close> and the blob is still there.
\<close>

theorem delete_dir_failed_delete_ok:
  "delete_dir (Suc (Suc 0)) (env_ref 4 (\<lambda>r. r = Delete_blob ''ws/d/f''))
     (fs_ref ''ws'' [(''ws/.dir.marker'', []), (''ws/d/.dir.marker'', []), (''ws/d/f'', [(0, [1, 2, 3])])])
     ''ws/d''
   = Some (TILEDB_FS_OK,
       \<lparr>working_dir = ''ws'', write_map = Map.empty,
        bc = \<lparr>blobs = [(''ws/.dir.marker'', []), (''ws/d/f'', [(0, [1, 2, 3])])], staged = [],
              requests = [Delete_blob ''ws/d/.dir.marker'', Delete_blob ''ws/d/f'']\<rparr>,
        tiledb_fs_errmsg = [(File_still_exists_after_deletion, ''ws/d/f'')]\<rparr>)"
  by (simp add: ref_defs get_path_def is_dir_def is_file_def blob_exists_def MARKER_def
      list_blobs_segmented_def delete_blob_def sent_def AZ_BLOB_ERROR_def INT_MAX_def Let_def
      AList.delete_eq)

subsection \<open>Writing\<close>

lemma upload_block_size_bounds:
  "default_block_size \<le> upload_block_size E n \<and> upload_block_size E n \<le> max_block_size
   \<and> GRAIN_SIZE dvd upload_block_size E n"
proof -
  have g: "GRAIN_SIZE dvd (n div max_num_blocks E + GRAIN_SIZE - 1) div GRAIN_SIZE * GRAIN_SIZE"
    by simp
  have m: "GRAIN_SIZE dvd max_block_size" "GRAIN_SIZE dvd default_block_size"
    by (simp_all add: GRAIN_SIZE_def max_block_size_def default_block_size_def)
  have d: "default_block_size \<le> max_block_size"
    by (simp add: max_block_size_def default_block_size_def)
  show ?thesis
    unfolding upload_block_size_def using g m d by (auto simp: max_def min_def)
qed

lemma upload_block_size_pos: "0 < upload_block_size E n"
  using upload_block_size_bounds [of E n] by (simp add: default_block_size_def)

lemma ceil_div_cover:
  fixes n b :: nat
  assumes "0 < b"
  shows "n \<le> (n + b - 1) div b * b" and "0 < n \<Longrightarrow> ((n + b - 1) div b - 1) * b < n"
proof -
  have "n + b - 1 < b + (n + b - 1) div b * b"
    using assms by (rule dividend_less_div_times)
  then show "n \<le> (n + b - 1) div b * b" using assms by linarith
  assume "0 < n"
  have "(n + b - 1) div b * b \<le> n + b - 1"
    by (rule div_times_less_eq_dividend)
  moreover have "((n + b - 1) div b - 1) * b = (n + b - 1) div b * b - b"
    by (simp add: diff_mult_distrib)
  ultimately show "((n + b - 1) div b - 1) * b < n"
    using \<open>0 < n\<close> assms by linarith
qed

lemma upload_num_blocks_cover:
  "n \<le> upload_num_blocks E n * upload_block_size E n"
  "0 < n \<Longrightarrow> (upload_num_blocks E n - 1) * upload_block_size E n < n"
  unfolding upload_num_blocks_def
  using ceil_div_cover [OF upload_block_size_pos [of E n], of n] by auto

lemma length_block_slice: "length (block_slice b xs i) \<le> b"
  by (simp add: block_slice_def)

lemma block_slice_take: "block_slice b xs i = take b (drop (b * i) xs)"
  by (simp add: block_slice_def min_def)

lemma concat_block_slices: "concat (map (block_slice b xs) [0..<n]) = take (n * b) xs"
proof (induction n)
  case 0
  then show ?case by simp
next
  case (Suc n)
  have "take (n * b) xs @ take b (drop (b * n) xs) = take (n * b + b) xs"
    by (simp add: take_add mult.commute)
  with Suc show ?case
    by (simp add: block_slice_take add.commute)
qed

lemma block_slices_cover:
  "length xs \<le> n * b \<Longrightarrow> concat (map (block_slice b xs) [0..<n]) = xs"
  by (simp add: concat_block_slices)


lemma staged_blocks_upload [simp]:
  "staged_blocks (st\<lparr>staged := AList.update blob bs (staged st)\<rparr>) blob = bs"
  by (simp add: staged_blocks_def update_conv')

lemma staged_blocks_sent [simp]: "staged_blocks (sent r st) blob = staged_blocks st blob"
  by (simp add: staged_blocks_def)

text \<open>Whatever the ranks, every block index arrives exactly once.\<close>

lemma set_arrival_order [simp]: "set (arrival_order E w n) = {0..<n}"
  by (simp add: arrival_order_def)

lemma distinct_arrival_order [simp]: "distinct (arrival_order E w n)"
  by (simp add: arrival_order_def)

lemma length_arrival_order [simp]: "length (arrival_order E w n) = n"
  by (simp add: arrival_order_def)

lemma arrival_order_in_order:
  "(\<And>i j. i \<le> j \<Longrightarrow> arrival_rank E i \<le> arrival_rank E j) \<Longrightarrow> arrival_order E w n = [0..<n]"
  unfolding arrival_order_def
  by (simp add: sorted_sort_id sorted_map sorted_wrt_iff_nth_less sort_key_id_if_sorted)

lemma blobs_upload_block [simp]:
  "blobs (snd (upload_block_from_buffer E st blob bid data)) = blobs st"
  by (simp add: upload_block_from_buffer_def)

lemma upload_in_flight_blobs:
  "upload_in_flight E blob b ids buf js st = Some st' \<Longrightarrow> blobs st' = blobs st"
proof (induction js arbitrary: st)
  case Nil
  then show ?case by simp
next
  case (Cons i js)
  from Cons.prems have
    "upload_in_flight E blob b ids buf js
       (snd (upload_block_from_buffer E st blob (ids ! i) (block_slice b buf i))) = Some st'"
    by (simp split: if_splits)
  from Cons.IH [OF this] show ?case by simp
qed

lemma upload_blocks_blobs:
  "upload_blocks E blob b ids buf w js st = Some (ok, st') \<Longrightarrow> blobs st' = blobs st"
proof (induction js arbitrary: st)
  case Nil
  then show ?case by simp
next
  case (Cons i js)
  let ?u = "upload_block_from_buffer E st blob (ids ! i) (block_slice b buf i)"
  from Cons.prems have i: "\<not> length ids \<le> i"
    by (simp split: if_splits)
  show ?case
  proof (cases "fst ?u")
    case True
    with Cons.prems i have "upload_blocks E blob b ids buf w js (snd ?u) = Some (ok, st')"
      by (simp split: prod.splits)
    from Cons.IH [OF this] show ?thesis by simp
  next
    case False
    with Cons.prems i have
      "upload_in_flight E blob b ids buf (take (min (in_flight E) (w - 1)) js) (snd ?u) = Some st'"
      by (auto split: prod.splits)
    from upload_in_flight_blobs [OF this] show ?thesis by simp
  qed
qed

lemma upload_blocks_ok:
  assumes "\<forall>i \<in> set js. i < length ids" and "\<forall>r. \<not> rejected E r"
  shows "\<exists>st'. upload_blocks E blob b ids buf w js st = Some (True, st') \<and> blobs st' = blobs st \<and>
     requests st' =
       requests st @ map (\<lambda>i. Upload_block_from_buffer blob (ids ! i) (block_slice b buf i)) js \<and>
     staged_blocks st' blob =
       fold (\<lambda>i. AList.update (ids ! i) (block_slice b buf i)) js (staged_blocks st blob)"
  using assms(1)
proof (induction js arbitrary: st)
  case Nil
  then show ?case by simp
next
  case (Cons i js)
  let ?st1 = "sent (Upload_block_from_buffer blob (ids ! i) (block_slice b buf i))
           (st\<lparr>staged := AList.update blob
                (AList.update (ids ! i) (block_slice b buf i) (staged_blocks st blob)) (staged st)\<rparr>)"
  from Cons.prems have "\<forall>i \<in> set js. i < length ids" by simp
  from Cons.IH [OF this, of ?st1] obtain st' where
    "upload_blocks E blob b ids buf w js ?st1 = Some (True, st')" "blobs st' = blobs ?st1"
    "requests st' = requests ?st1 @ map (\<lambda>i. Upload_block_from_buffer blob (ids ! i) (block_slice b buf i)) js"
    "staged_blocks st' blob = fold (\<lambda>i. AList.update (ids ! i) (block_slice b buf i)) js (staged_blocks ?st1 blob)"
    by blast
  with Cons.prems assms(2) show ?case
    by (simp add: upload_block_from_buffer_def)
qed

text \<open>The staged blocks after a run of uploads, as a map from block id to block.\<close>

lemma map_of_fold_update_other:
  "x \<notin> h ` set js \<Longrightarrow> map_of (fold (\<lambda>i. AList.update (h i) (g i)) js al) x = map_of al x"
  by (induction js arbitrary: al) (auto simp: update_conv')

lemma map_of_fold_update:
  "i \<in> set js \<Longrightarrow> inj_on h (set js) \<Longrightarrow>
   map_of (fold (\<lambda>i. AList.update (h i) (g i)) js al) (h i) = Some (g i)"
proof (induction js arbitrary: al)
  case Nil
  then show ?case by simp
next
  case (Cons j js)
  from Cons.prems(2) have inj: "inj_on h (set js)" by (simp add: inj_on_def)
  show ?case
  proof (cases "i \<in> set js")
    case True
    from Cons.IH [OF True inj] show ?thesis by simp
  next
    case False
    with Cons.prems(1) have ij: "i = j" by simp
    from False Cons.prems(2) ij have "h j \<notin> h ` set js"
      by (auto simp: inj_on_def)
    then have "map_of (fold (\<lambda>i. AList.update (h i) (g i)) js (AList.update (h j) (g j) al)) (h j)
        = map_of (AList.update (h j) (g j) al) (h j)"
      by (rule map_of_fold_update_other)
    with ij show ?thesis
      by (simp add: update_conv')
  qed
qed

lemma write_map_generate [simp]:
  "write_map (snd (generate_block_ids fs path n)) = (write_map fs)(path \<mapsto> pending fs path @ fst (generate_block_ids fs path n))"
  by (simp add: generate_block_ids_def Let_def)

lemma write_to_file_data:
  assumes ne: "buffer \<noteq> []"
    and par: "is_dir E fs (parent_dir E f)"
    and lim: "length buffer \<le> max_num_blocks E * max_block_size"
  shows "write_to_file E fs f buffer =
     (case upload_block_blob E (bc fs) (get_path E fs f) (upload_block_size E (length buffer))
             (upload_num_blocks E (length buffer))
             [length (pending fs (get_path E fs f)) ..<
                length (pending fs (get_path E fs f)) + upload_num_blocks E (length buffer)]
             buffer (hardware_concurrency E div 2) of
        None \<Rightarrow> None
      | Some (ok, st') \<Rightarrow>
          let fs1 = fs\<lparr>write_map := (write_map fs)(get_path E fs f \<mapsto>
                       pending fs (get_path E fs f) @
                       [length (pending fs (get_path E fs f)) ..<
                          length (pending fs (get_path E fs f)) + upload_num_blocks E (length buffer)]),
                     bc := st'\<rparr>
          in if ok then Some (TILEDB_FS_OK, fs1)
             else Some (TILEDB_FS_ERR, AZ_BLOB_ERROR Upload_result_error (get_path E fs f) fs1))"
proof -
  from ne lim have "max_num_blocks E \<noteq> 0" by (cases "max_num_blocks E = 0") auto
  with ne par lim show ?thesis
    by (auto simp: write_to_file_def generate_block_ids_def Let_def AZ_BLOB_ERROR_def
        split: option.splits bool.splits prod.splits)
qed

text \<open>
  The block size: the share of one block, \<open>n div max_num_blocks\<close>, rounded up to the next
  multiple of the 4 MiB grain, then clamped to the range from 8 MiB to 100 MiB.
\<close>

lemma upload_block_size_rounding:
  "\<exists>r. 4194304 dvd r \<and> n div max_num_blocks E \<le> r \<and> r < n div max_num_blocks E + 4194304 \<and>
       upload_block_size E n = max 8388608 (min 104857600 r)"
proof -
  let ?q = "n div max_num_blocks E"
  let ?r = "(?q + 4194304 - 1) div 4194304 * 4194304"
  have "4194304 dvd ?r" by simp
  moreover have "?q \<le> ?r"
    by (rule ceil_div_cover(1)) simp
  moreover have "?r \<le> ?q + 4194304 - 1"
    by (rule div_times_less_eq_dividend)
  then have "?r < ?q + 4194304" by linarith
  moreover have "upload_block_size E n = max 8388608 (min 104857600 ?r)"
    by (simp add: upload_block_size_def GRAIN_SIZE_def max_block_size_def default_block_size_def
        max.commute min.commute)
  ultimately show ?thesis by blast
qed

lemma block_slice_nonempty:
  assumes "0 < b" and "i * b < length xs"
  shows "block_slice b xs i \<noteq> []" and "length (block_slice b xs i) = min b (length xs - b * i)"
  using assms by (simp_all add: block_slice_def mult.commute)


lemma plan_two_blocks:
  "max_num_blocks E = 50000 \<Longrightarrow>
   upload_block_size E 8388609 = 8388608 \<and> upload_num_blocks E 8388609 = 2"
  by (simp add: upload_num_blocks_def upload_block_size_def GRAIN_SIZE_def
      max_block_size_def default_block_size_def)

lemma plan_tebibyte:
  "max_num_blocks E = 50000 \<Longrightarrow>
   upload_block_size E 1099511627776 = 25165824 \<and> upload_num_blocks E 1099511627776 = 43691"
  by (simp add: upload_num_blocks_def upload_block_size_def GRAIN_SIZE_def
      max_block_size_def default_block_size_def)


lemma write_to_file_without_worker:
  assumes "buffer \<noteq> []" and "is_dir E fs (parent_dir E f)"
    and "length buffer \<le> max_num_blocks E * max_block_size"
    and "hardware_concurrency E < 2"
  shows "write_to_file E fs f buffer = None"
  using assms(4)
  by (simp add: write_to_file_data [OF assms(1-3)] upload_block_blob_def upload_workers_def)

lemma upload_plan_fits:
  assumes "max_num_blocks E < 2 ^ 27" and "n \<le> max_num_blocks E * max_block_size"
  shows "max_num_blocks E * max_block_size < 2 ^ 64"
    and "n div max_num_blocks E + GRAIN_SIZE - 1 < 2 ^ 64"
    and "n + upload_block_size E n - 1 < 2 ^ 64"
    and "upload_num_blocks E n < 2 ^ 31"
proof -
  from assms have n: "n < 14073748835532800"
    by (simp add: max_block_size_def)
  from assms(1) show "max_num_blocks E * max_block_size < 2 ^ 64"
    by (simp add: max_block_size_def)
  have "n div max_num_blocks E \<le> n" by simp
  with n have "n div max_num_blocks E < 14073748835532800" by linarith
  then show "n div max_num_blocks E + GRAIN_SIZE - 1 < 2 ^ 64"
    by (simp add: GRAIN_SIZE_def)
  have b: "8388608 \<le> upload_block_size E n" "upload_block_size E n \<le> 104857600"
    using upload_block_size_bounds [of E n]
    by (simp_all add: max_block_size_def default_block_size_def)
  from n b show "n + upload_block_size E n - 1 < 2 ^ 64"
    by simp
  from n b have "n + upload_block_size E n - 1 < 2147483648 * upload_block_size E n"
    by linarith
  with b show "upload_num_blocks E n < 2 ^ 31"
    by (simp add: upload_num_blocks_def div_less_iff_less_mult)
qed


text \<open>
  C6 (amended). For every write whose buffer size exceeds the block limit (the maximum
  number of blocks times the 100 MiB maximum block size), \<^verbatim>\<open>write_to_file\<close> fails, no
  request is sent and the container and the pending block lists stay as they were: the
  only change is the logged error, which is the capacity error "Buffer size too large for
  azure upload" when the parent directory of the file exists, and "Parent dir does not
  seem to exist" otherwise.
\<close>

theorem write_to_file_too_large:
  assumes "max_num_blocks E * max_block_size < length buffer"
  shows "write_to_file E fs f buffer =
     Some (TILEDB_FS_ERR,
       fs\<lparr>tiledb_fs_errmsg := tiledb_fs_errmsg fs @
          [(if is_dir E fs (parent_dir E f) then Buffer_size_too_large_for_azure_upload
            else Parent_dir_does_not_seem_to_exist, get_path E fs f)]\<rparr>)"
proof -
  from assms have "buffer \<noteq> []" by auto
  with assms show ?thesis
    by (simp add: write_to_file_def AZ_BLOB_ERROR_def Let_def)
qed

text \<open>
  The claim as first stated fails for a file whose parent directory does not exist: the
  check of the parent directory comes first, and the error reported for the oversized
  buffer is not the capacity error.
\<close>

theorem write_to_file_too_large_counterexample:
  "max_num_blocks (env_ref 4 (\<lambda>r. False)) * max_block_size < length (replicate 5242880000001 (0 :: byte))
   \<and> write_to_file (env_ref 4 (\<lambda>r. False)) (fs_ref ''ws'' []) ''ws/a/f'' (replicate 5242880000001 0)
       = Some (TILEDB_FS_ERR,
           (fs_ref ''ws'' [])\<lparr>tiledb_fs_errmsg := [(Parent_dir_does_not_seem_to_exist, ''ws/a/f'')]\<rparr>)"
  by (simp add: write_to_file_def AZ_BLOB_ERROR_def Let_def ref_defs max_block_size_def
      get_path_def is_dir_def is_file_def blob_exists_def MARKER_def list_blobs_segmented_def)

theorem write_to_file_too_large_witness:
  "max_num_blocks (env_ref 4 (\<lambda>r. False)) * max_block_size < length (replicate 5242880000001 (0 :: byte))
   \<and> write_to_file (env_ref 4 (\<lambda>r. False)) (fs_ref ''ws'' [(''ws/.dir.marker'', [])]) ''ws/f''
         (replicate 5242880000001 0)
       = Some (TILEDB_FS_ERR,
           (fs_ref ''ws'' [(''ws/.dir.marker'', [])])\<lparr>tiledb_fs_errmsg :=
              [(Buffer_size_too_large_for_azure_upload, ''ws/f'')]\<rparr>)"
proof -
  let ?E = "env_ref 4 (\<lambda>r. False)"
  let ?fs = "fs_ref ''ws'' [(''ws/.dir.marker'', [])]"
  have big: "max_num_blocks ?E * max_block_size < length (replicate 5242880000001 (0 :: byte))"
    by (simp add: env_ref_def max_block_size_def)
  have par: "is_dir ?E ?fs (parent_dir ?E ''ws/f'')"
    by (simp add: ref_defs get_path_def is_dir_def is_file_def blob_exists_def MARKER_def)
  have p: "get_path ?E ?fs ''ws/f'' = ''ws/f''"
    by (simp add: ref_defs get_path_def)
  have e: "tiledb_fs_errmsg ?fs = []" by (simp add: fs_ref_def)
  from write_to_file_too_large [OF big, of ?fs "''ws/f''"] par p e big show ?thesis
    by simp
qed

subsection \<open>Committing\<close>

lemma commit_file_nothing_pending:
  "write_map fs (get_path E fs p) = None \<Longrightarrow> commit_file E fs p = (TILEDB_FS_OK, fs)"
  by (simp add: commit_file_def)

lemma requests_put_block_list:
  "requests (snd (put_block_list E st blob ids)) = requests st @ [Put_block_list blob ids]"
  by (simp add: put_block_list_def split: option.splits)

lemma commit_file_pending:
  assumes "write_map fs (get_path E fs p) = Some ids"
  shows "\<exists>r fs'. commit_file E fs p = (r, fs') \<and>
     bc fs' = snd (put_block_list E (bc fs) (get_path E fs p) ids) \<and>
     requests (bc fs') = requests (bc fs) @ [Put_block_list (get_path E fs p) ids] \<and>
     write_map fs' = (write_map fs)(get_path E fs p := None) \<and>
     (r = TILEDB_FS_OK) = fst (put_block_list E (bc fs) (get_path E fs p) ids)"
proof (cases "put_block_list E (bc fs) (get_path E fs p) ids")
  case (Pair ok st')
  with assms requests_put_block_list [of E "bc fs" "get_path E fs p" ids] show ?thesis
    by (cases ok) (simp_all add: commit_file_def AZ_BLOB_ERROR_def Let_def)
qed

lemma write_to_file_invisible:
  assumes "buffer \<noteq> []" and "write_to_file E fs f buffer = Some (r, fs')"
  shows "blobs (bc fs') = blobs (bc fs)"
proof -
  from assms have "\<exists>ok st'. upload_block_blob E (bc (snd (generate_block_ids fs (get_path E fs f)
          (upload_num_blocks E (length buffer))))) (get_path E fs f) (upload_block_size E (length buffer))
          (upload_num_blocks E (length buffer))
          (fst (generate_block_ids fs (get_path E fs f) (upload_num_blocks E (length buffer))))
          buffer (hardware_concurrency E div 2) = Some (ok, st') \<and> bc fs' = st'
       \<or> bc fs' = bc fs"
    by (auto simp: write_to_file_def Let_def split: if_splits option.splits prod.splits bool.splits)
  then show ?thesis
    by (auto simp: upload_block_blob_def generate_block_ids_def Let_def
        dest: upload_blocks_blobs split: if_splits)
qed

lemma those_map_Some: "those (map (\<lambda>i. Some (g i)) js) = Some (map g js)"
  by (induction js) simp_all

lemma put_staged_run:
  assumes acc: "\<not> rejected E (Put_block_list blob [0..<k])"
    and st: "\<forall>i<k. map_of (staged_blocks st blob) i = Some (g i)"
  shows "put_block_list E st blob [0..<k] =
     (True, sent (Put_block_list blob [0..<k])
        (st\<lparr>blobs := AList.update blob (zip [0..<k] (map g [0..<k])) (blobs st),
            staged := AList.delete blob (staged st)\<rparr>))"
proof -
  have eq: "map (map_of (staged_blocks st blob @ committed_blocks st blob)) [0..<k]
      = map (\<lambda>i. Some (g i)) [0..<k]"
    by (rule map_cong) (simp_all add: st map_add_def)
  have "those (map (map_of (staged_blocks st blob @ committed_blocks st blob)) [0..<k])
      = Some (map g [0..<k])"
    unfolding eq by (rule those_map_Some)
  with acc show ?thesis
    by (simp add: put_block_list_def)
qed

lemma blob_data_zip: "length ks = length ds \<Longrightarrow> blob_data (zip ks ds) = concat ds"
  by (simp add: blob_data_def)

lemma write_then_commit:
  assumes ne: "buffer \<noteq> []"
    and par: "is_dir E fs (parent_dir E f)"
    and lim: "length buffer \<le> max_num_blocks E * max_block_size"
    and hw: "2 \<le> hardware_concurrency E"
    and acc: "\<forall>r. \<not> rejected E r"
    and fresh: "write_map fs (get_path E fs f) = None" "staged_blocks (bc fs) (get_path E fs f) = []"
  shows "\<exists>fs1 fs2 bs. write_to_file E fs f buffer = Some (TILEDB_FS_OK, fs1) \<and>
     blobs (bc fs1) = blobs (bc fs) \<and>
     commit_file E fs1 f = (TILEDB_FS_OK, fs2) \<and>
     map_of (blobs (bc fs2)) (get_path E fs f) = Some bs \<and> blob_data bs = buffer \<and>
     write_map fs2 (get_path E fs f) = None"
proof -
  let ?n = "length buffer"
  let ?b = "upload_block_size E ?n"
  let ?k = "upload_num_blocks E ?n"
  let ?path = "get_path E fs f"
  let ?g = "block_slice ?b buffer"
  let ?w = "upload_workers E (hardware_concurrency E div 2)"
  let ?js = "arrival_order E ?w ?k"
  from fresh(1) have p: "pending fs ?path = []" by (simp add: pending_def)
  from hw have w: "?w \<noteq> 0"
    by (simp add: upload_workers_def concurrency_def)
  have "\<forall>i \<in> set ?js. i < length [0..<?k]" by simp
  from upload_blocks_ok [OF this acc, of ?path ?b buffer ?w "bc fs"] obtain st' where
    up: "upload_blocks E ?path ?b [0..<?k] buffer ?w ?js (bc fs) = Some (True, st')"
    and bl: "blobs st' = blobs (bc fs)"
    and sg: "staged_blocks st' ?path = fold (\<lambda>i. AList.update ([0..<?k] ! i) (?g i)) ?js []"
    using fresh(2) by auto
  have "fold (\<lambda>i. AList.update ([0..<?k] ! i) (?g i)) ?js [] = fold (\<lambda>i. AList.update i (?g i)) ?js []"
    by (rule fold_cong) simp_all
  with sg have "staged_blocks st' ?path = fold (\<lambda>i. AList.update i (?g i)) ?js []"
    by simp
  then have sg': "\<forall>i<?k. map_of (staged_blocks st' ?path) i = Some (?g i)"
    using map_of_fold_update [of _ ?js "\<lambda>i. i" ?g "[]"] by simp
  let ?fs1 = "fs\<lparr>write_map := (write_map fs)(?path \<mapsto> [0..<?k]), bc := st'\<rparr>"
  from w up p have wr: "write_to_file E fs f buffer = Some (TILEDB_FS_OK, ?fs1)"
    by (simp add: write_to_file_data [OF ne par lim] upload_block_blob_def)
  from acc have "\<not> rejected E (Put_block_list ?path [0..<?k])" by simp
  from put_staged_run [OF this sg']
  have put: "put_block_list E st' ?path [0..<?k] =
     (True, sent (Put_block_list ?path [0..<?k])
        (st'\<lparr>blobs := AList.update ?path (zip [0..<?k] (map ?g [0..<?k])) (blobs st'),
            staged := AList.delete ?path (staged st')\<rparr>))" .
  let ?st2 = "sent (Put_block_list ?path [0..<?k])
        (st'\<lparr>blobs := AList.update ?path (zip [0..<?k] (map ?g [0..<?k])) (blobs st'),
            staged := AList.delete ?path (staged st')\<rparr>)"
  let ?fs2 = "?fs1\<lparr>bc := ?st2, write_map := (write_map ?fs1)(?path := None)\<rparr>"
  have gp: "get_path E ?fs1 f = ?path"
    by simp
  have cm: "commit_file E ?fs1 f = (TILEDB_FS_OK, ?fs2)"
    unfolding commit_file_def gp by (simp add: put Let_def)
  have m: "map_of (blobs (bc ?fs2)) ?path = Some (zip [0..<?k] (map ?g [0..<?k]))"
    by (simp add: update_conv')
  have d: "blob_data (zip [0..<?k] (map ?g [0..<?k])) = buffer"
    by (simp add: blob_data_zip block_slices_cover upload_num_blocks_cover(1))
  have wm: "write_map ?fs2 ?path = None" by simp
  from wr bl cm m d wm show ?thesis
    by (intro exI [of _ ?fs1] exI [of _ ?fs2] exI [of _ "zip [0..<?k] (map ?g [0..<?k])"]) simp
qed


text \<open>
  C3. Commit makes pending appends durable and visible. \<^verbatim>\<open>commit_file\<close> sends the
  block-list commit (\<^verbatim>\<open>put_block_list\<close>, with the pending ids of the path) exactly when
  the path has an entry in the write map, removes the entry afterwards whether the commit
  succeeded or not, returns success exactly when the commit succeeded, and returns
  success without any request or change when the path has no entry; \<^verbatim>\<open>sync_path\<close> is
  \<^verbatim>\<open>commit_file\<close>. A write of data changes no committed blob, so until the commit the
  uploaded blocks are not visible as the file. And a write of a buffer to a file with no
  pending or staged blocks, followed by the commit, leaves the file's committed bytes
  equal to the buffer.
\<close>

theorem commit_file_makes_visible:
  "(write_map fs (get_path E fs p) = None \<longrightarrow> commit_file E fs p = (TILEDB_FS_OK, fs))
   \<and> (write_map fs (get_path E fs p) = Some ids \<longrightarrow>
        (\<exists>r fs'. commit_file E fs p = (r, fs') \<and>
           bc fs' = snd (put_block_list E (bc fs) (get_path E fs p) ids) \<and>
           requests (bc fs') = requests (bc fs) @ [Put_block_list (get_path E fs p) ids] \<and>
           write_map fs' = (write_map fs)(get_path E fs p := None) \<and>
           (r = TILEDB_FS_OK) = fst (put_block_list E (bc fs) (get_path E fs p) ids)))
   \<and> sync_path E fs p = commit_file E fs p
   \<and> (buffer \<noteq> [] \<and> write_to_file E fs p buffer = Some (r1, fs1) \<longrightarrow> blobs (bc fs1) = blobs (bc fs))
   \<and> (buffer \<noteq> [] \<and> is_dir E fs (parent_dir E p) \<and>
        length buffer \<le> max_num_blocks E * max_block_size \<and> 2 \<le> hardware_concurrency E \<and>
        (\<forall>r. \<not> rejected E r) \<and>
        write_map fs (get_path E fs p) = None \<and> staged_blocks (bc fs) (get_path E fs p) = [] \<longrightarrow>
        (\<exists>fs1 fs2 bs. write_to_file E fs p buffer = Some (TILEDB_FS_OK, fs1) \<and>
           blobs (bc fs1) = blobs (bc fs) \<and>
           commit_file E fs1 p = (TILEDB_FS_OK, fs2) \<and>
           map_of (blobs (bc fs2)) (get_path E fs p) = Some bs \<and> blob_data bs = buffer \<and>
           write_map fs2 (get_path E fs p) = None))"
  using commit_file_nothing_pending [of fs E p] commit_file_pending [of fs E p ids]
    write_to_file_invisible [of buffer E fs p r1 fs1] write_then_commit [of buffer E fs p]
  by (simp add: sync_path_def)

lemma ex_write:
  "write_to_file (env_ref 4 (\<lambda>r. False)) (fs_ref ''ws'' [(''ws/.dir.marker'', [])]) ''ws/f'' [1, 2, 3]
   = Some (TILEDB_FS_OK,
       \<lparr>working_dir = ''ws'', write_map = [''ws/f'' \<mapsto> [0]],
        bc = \<lparr>blobs = [(''ws/.dir.marker'', [])], staged = [(''ws/f'', [(0, [1, 2, 3])])],
              requests = [Upload_block_from_buffer ''ws/f'' 0 [1, 2, 3]]\<rparr>,
        tiledb_fs_errmsg = []\<rparr>)"
  by (simp add: write_to_file_def ref_defs get_path_def is_dir_def is_file_def blob_exists_def MARKER_def
      max_block_size_def default_block_size_def GRAIN_SIZE_def upload_block_size_def
      upload_num_blocks_def generate_block_ids_def pending_def upload_block_blob_def
      upload_workers_def concurrency_def arrival_order_def upload_block_from_buffer_def
      block_slice_def staged_blocks_def sent_def Let_def)


theorem commit_file_makes_visible_witness:
  "commit_file (env_ref 4 (\<lambda>r. False)) (fs_ref ''ws'' [(''ws/.dir.marker'', [])]) ''ws/f''
     = (TILEDB_FS_OK, fs_ref ''ws'' [(''ws/.dir.marker'', [])])
   \<and> (\<exists>fs1 fs2 bs.
        write_to_file (env_ref 4 (\<lambda>r. False)) (fs_ref ''ws'' [(''ws/.dir.marker'', [])]) ''ws/f'' [1, 2, 3]
          = Some (TILEDB_FS_OK, fs1) \<and>
        blobs (bc fs1) = [(''ws/.dir.marker'', [])] \<and>
        commit_file (env_ref 4 (\<lambda>r. False)) fs1 ''ws/f'' = (TILEDB_FS_OK, fs2) \<and>
        requests (bc fs2) = [Upload_block_from_buffer ''ws/f'' 0 [1, 2, 3], Put_block_list ''ws/f'' [0]] \<and>
        map_of (blobs (bc fs2)) ''ws/f'' = Some bs \<and> blob_data bs = [1, 2, 3] \<and>
        write_map fs2 ''ws/f'' = None)"
proof -
  let ?E = "env_ref 4 (\<lambda>r. False)"
  let ?fs = "fs_ref ''ws'' [(''ws/.dir.marker'', [])]"
  let ?fsW = "\<lparr>working_dir = ''ws'', write_map = [''ws/f'' \<mapsto> [0]],
        bc = \<lparr>blobs = [(''ws/.dir.marker'', [])], staged = [(''ws/f'', [(0, [1, 2, 3 :: byte])])],
              requests = [Upload_block_from_buffer ''ws/f'' 0 [1, 2, 3]]\<rparr>,
        tiledb_fs_errmsg = []\<rparr>"
  have p: "get_path ?E ?fs ''ws/f'' = ''ws/f''" "get_path ?E ?fsW ''ws/f'' = ''ws/f''"
    by (simp_all add: ref_defs get_path_def)
  have h: "[1, 2, 3 :: byte] \<noteq> []" "is_dir ?E ?fs (parent_dir ?E ''ws/f'')"
    "length [1, 2, 3 :: byte] \<le> max_num_blocks ?E * max_block_size" "2 \<le> hardware_concurrency ?E"
    "\<forall>r. \<not> rejected ?E r" "write_map ?fs ''ws/f'' = None" "staged_blocks (bc ?fs) ''ws/f'' = []"
    by (simp_all add: ref_defs get_path_def is_dir_def is_file_def blob_exists_def MARKER_def
        max_block_size_def staged_blocks_def)
  have a: "commit_file ?E ?fs ''ws/f'' = (TILEDB_FS_OK, ?fs)"
    using commit_file_makes_visible [of ?fs ?E "''ws/f''" "[]" "[1, 2, 3]" TILEDB_FS_OK ?fs] h(6)
    unfolding p(1) by blast
  have "\<exists>fs1 fs2 bs. write_to_file ?E ?fs ''ws/f'' [1, 2, 3] = Some (TILEDB_FS_OK, fs1) \<and>
      blobs (bc fs1) = blobs (bc ?fs) \<and> commit_file ?E fs1 ''ws/f'' = (TILEDB_FS_OK, fs2) \<and>
      map_of (blobs (bc fs2)) ''ws/f'' = Some bs \<and> blob_data bs = [1, 2, 3] \<and>
      write_map fs2 ''ws/f'' = None"
    using commit_file_makes_visible [of ?fs ?E "''ws/f''" "[]" "[1, 2, 3]" TILEDB_FS_OK ?fs] h
    unfolding p(1) by blast
  then obtain fs1 fs2 bs where
    w: "write_to_file ?E ?fs ''ws/f'' [1, 2, 3] = Some (TILEDB_FS_OK, fs1)"
    and b: "blobs (bc fs1) = blobs (bc ?fs)"
    and c: "commit_file ?E fs1 ''ws/f'' = (TILEDB_FS_OK, fs2)"
    and m: "map_of (blobs (bc fs2)) ''ws/f'' = Some bs" "blob_data bs = [1, 2, 3]"
      "write_map fs2 ''ws/f'' = None"
    by auto
  from w ex_write have f1: "fs1 = ?fsW" by simp
  have "write_map ?fsW (get_path ?E ?fsW ''ws/f'') = Some [0]"
    by (simp add: p(2))
  with commit_file_makes_visible [of ?fsW ?E "''ws/f''" "[0]" "[1, 2, 3]" TILEDB_FS_OK ?fs]
  obtain r fs' where "commit_file ?E ?fsW ''ws/f'' = (r, fs')"
    "requests (bc fs') = requests (bc ?fsW) @ [Put_block_list (get_path ?E ?fsW ''ws/f'') [0]]"
    by blast
  with c f1 have rq: "requests (bc fs2) = [Upload_block_from_buffer ''ws/f'' 0 [1, 2, 3], Put_block_list ''ws/f'' [0]]"
    by (simp add: p(2))
  from b have b': "blobs (bc fs1) = [(''ws/.dir.marker'', [])]"
    by (simp add: fs_ref_def)
  from a w b' c rq m show ?thesis by blast
qed

subsection \<open>Reading\<close>

lemma sint_le_uint: "sint (w :: 'a::len word) \<le> uint w"
proof -
  have "- (2 ^ (LENGTH('a) - 1)) \<le> uint w"
    by (rule order_trans [of _ 0]) simp_all
  then show ?thesis
    by (simp add: sint_uint signed_take_bit_int_less_eq_self_iff)
qed

lemma sint_add_no_wrap:
  fixes len offset :: "64 word"
  assumes "0 \<le> sint offset" and "uint len + sint offset < 2 ^ 63"
  shows "sint (len + offset) = uint len + sint offset"
proof -
  have u: "0 \<le> uint len" by simp
  with assms have "uint len < 2 ^ 63" by linarith
  moreover have "- (2 ^ 63) \<le> uint len"
    by (rule order_trans [of _ 0]) simp_all
  ultimately have sl: "sint len = uint len"
    unfolding sint_uint by (intro signed_take_bit_int_eq_self) simp_all
  have "sint (len + offset) = signed_take_bit 63 (sint len + sint offset)"
    by (simp add: sint_word_ariths)
  also have "\<dots> = sint len + sint offset"
  proof (rule signed_take_bit_int_eq_self)
    have "0 \<le> uint len + sint offset"
      using assms(1) uint_ge_0 [of len] by linarith
    then show "- (2 ^ 63) \<le> sint len + sint offset"
      unfolding sl by (rule order_trans [rotated]) simp
    from assms(2) sl show "sint len + sint offset < 2 ^ 63" by simp
  qed
  finally show ?thesis by (simp add: sl)
qed

lemma file_size_eq:
  "file_size E fs f = (case get_blob_property (bc fs) (get_path E fs f) of
        Some n \<Rightarrow> (Some n, fs)
      | None \<Rightarrow> (None, AZ_BLOB_ERROR Could_not_get_file_properties f fs))"
  by (simp add: file_size_def)

lemma is_file_property:
  "is_file E fs f \<longleftrightarrow> (\<exists>bs. map_of (blobs (bc fs)) (get_path E fs f) = Some bs)"
  by (simp add: is_file_def blob_exists_def)

text \<open>The three ways \<open>read_from_file\<close> ends before a download, and the download.\<close>

lemma read_missing:
  "\<not> is_file E fs f \<Longrightarrow>
   read_from_file E fs f offset buffer len = (TILEDB_FS_ERR, buffer, AZ_BLOB_ERROR File_does_not_exist f fs)"
  by (simp add: read_from_file_def)

lemma read_past_end:
  assumes "map_of (blobs (bc fs)) (get_path E fs f) = Some bs"
    and "int (length (blob_data bs)) < sint (len + offset)"
  shows "read_from_file E fs f offset buffer len =
     (TILEDB_FS_ERR, buffer, AZ_BLOB_ERROR Cannot_read_past_the_file_size f fs)"
  using assms
  by (simp add: read_from_file_def is_file_property file_size_def get_blob_property_def)

lemma read_nothing:
  assumes "map_of (blobs (bc fs)) (get_path E fs f) = Some bs"
    and "\<not> int (length (blob_data bs)) < sint (0 + offset)"
  shows "read_from_file E fs f offset buffer 0 = (TILEDB_FS_OK, buffer, fs)"
  using assms
  by (simp add: read_from_file_def is_file_property file_size_def get_blob_property_def)

lemma range_of_blob_eq:
  "map_of (blobs st) blob = Some bs \<Longrightarrow>
   range_of_blob st blob off len =
     (if off < length (blob_data bs) then Some (take len (drop off (blob_data bs))) else None)"
  by (simp add: range_of_blob_def)

lemma download_eq:
  "(if n < GRAIN_SIZE
    then download_blob_to_stream E (bc fs) (get_path E fs f) (unat offset) (unat len)
    else download_blob_to_buffer E (bc fs) (get_path E fs f) (unat offset) (unat len)
           (hardware_concurrency E div 2))
   = (if rejected E (read_request E fs f offset len n) then None
      else range_of_blob (bc fs) (get_path E fs f) (unat offset) (unat len),
      sent (read_request E fs f offset len n) (bc fs))"
  by (simp add: read_request_def download_blob_to_stream_def download_blob_to_buffer_def)

text \<open>
  Past its checks, \<open>read_from_file\<close> sends one request and returns what the request
  returns: success with the bytes received, however many they are, or the error.
\<close>

lemma read_download:
  assumes b: "map_of (blobs (bc fs)) (get_path E fs f) = Some bs"
    and c: "\<not> int (length (blob_data bs)) < sint (len + offset)"
    and l: "len \<noteq> 0"
  shows "read_from_file E fs f offset buffer len =
     (if \<not> rejected E (read_request E fs f offset len (length (blob_data bs))) \<and>
         unat offset < length (blob_data bs)
      then (TILEDB_FS_OK,
            take (unat len) (drop (unat offset) (blob_data bs)) @
              drop (min (unat len) (length (blob_data bs) - unat offset)) buffer,
            fs\<lparr>bc := sent (read_request E fs f offset len (length (blob_data bs))) (bc fs)\<rparr>)
      else (TILEDB_FS_ERR, buffer,
            AZ_BLOB_ERROR Read_result_error f
              (fs\<lparr>bc := sent (read_request E fs f offset len (length (blob_data bs))) (bc fs)\<rparr>)))"
proof -
  let ?n = "length (blob_data bs)"
  have "read_from_file E fs f offset buffer len =
     (case (if rejected E (read_request E fs f offset len ?n) then None
            else range_of_blob (bc fs) (get_path E fs f) (unat offset) (unat len),
            sent (read_request E fs f offset len ?n) (bc fs)) of
        (None, st') \<Rightarrow> (TILEDB_FS_ERR, buffer, AZ_BLOB_ERROR Read_result_error f (fs\<lparr>bc := st'\<rparr>))
      | (Some data, st') \<Rightarrow> (TILEDB_FS_OK, data @ drop (length data) buffer, fs\<lparr>bc := st'\<rparr>))"
    using b c l
    by (simp add: read_from_file_def is_file_property file_size_def get_blob_property_def
        download_eq Let_def)
  then show ?thesis
    by (simp add: range_of_blob_eq [OF b] min.commute)
qed

text \<open>
  The size test of the source, \<^verbatim>\<open>filesize < (ssize_t)length + offset\<close>, compares the
  file size with offset + length as long as the offset is not negative and the sum fits
  into a signed 64-bit integer.
\<close>

lemma sint_nonneg_uint:
  fixes w :: "64 word"
  assumes "0 \<le> sint w"
  shows "sint w = uint w"
proof -
  define s where "s = signed_take_bit 63 (uint w)"
  have sw: "sint w = s"
    unfolding s_def sint_uint by simp
  have "uint w < 2 ^ 63"
  proof (rule ccontr)
    assume "\<not> uint w < 2 ^ 63"
    then have "2 ^ 63 \<le> uint w" by simp
    then have "s \<le> uint w - 2 ^ Suc 63"
      unfolding s_def by (rule signed_take_bit_int_less_eq)
    then have "s \<le> uint w - 18446744073709551616" by simp
    moreover have "uint w < 18446744073709551616"
      using uint_lt2p [of w] by simp
    ultimately have "s < 0" by linarith
    with assms sw show False by simp
  qed
  moreover have "- (2 ^ 63) \<le> uint w"
    by (rule order_trans [of _ 0]) simp_all
  ultimately have "signed_take_bit 63 (uint w) = uint w"
    by (intro signed_take_bit_int_eq_self) simp_all
  with sw show ?thesis by (simp add: s_def)
qed

lemma read_in_range:
  fixes len offset :: "64 word"
  assumes o: "0 \<le> sint offset" and r: "sint offset + uint len \<le> int n"
  shows "unat offset + unat len \<le> n"
proof -
  from r sint_nonneg_uint [OF o] have "uint offset + uint len \<le> int n" by simp
  then show ?thesis unfolding uint_nat [of offset] uint_nat [of len] by linarith
qed

lemma read_too_far:
  assumes b: "map_of (blobs (bc fs)) (get_path E fs f) = Some bs"
    and o: "0 \<le> sint offset" and w: "uint len + sint offset < 2 ^ 63"
    and far: "int (length (blob_data bs)) < sint offset + uint len"
  shows "read_from_file E fs f offset buffer len =
     (TILEDB_FS_ERR, buffer, AZ_BLOB_ERROR Cannot_read_past_the_file_size f fs)"
proof -
  from far sint_add_no_wrap [OF o w] have "int (length (blob_data bs)) < sint (len + offset)"
    by simp
  with b show ?thesis by (rule read_past_end)
qed

lemma read_valid:
  assumes b: "map_of (blobs (bc fs)) (get_path E fs f) = Some bs"
    and o: "0 \<le> sint offset" and w: "uint len + sint offset < 2 ^ 63"
    and r: "sint offset + uint len \<le> int (length (blob_data bs))"
    and l: "len \<noteq> 0"
  shows "read_from_file E fs f offset buffer len =
     (if rejected E (read_request E fs f offset len (length (blob_data bs)))
      then (TILEDB_FS_ERR, buffer,
            AZ_BLOB_ERROR Read_result_error f
              (fs\<lparr>bc := sent (read_request E fs f offset len (length (blob_data bs))) (bc fs)\<rparr>))
      else (TILEDB_FS_OK, take (unat len) (drop (unat offset) (blob_data bs)) @ drop (unat len) buffer,
            fs\<lparr>bc := sent (read_request E fs f offset len (length (blob_data bs))) (bc fs)\<rparr>))"
    and "length (take (unat len) (drop (unat offset) (blob_data bs))) = unat len"
proof -
  from r sint_add_no_wrap [OF o w] have c: "\<not> int (length (blob_data bs)) < sint (len + offset)"
    by simp
  from l have "0 < unat len" by (simp add: unat_gt_0)
  with read_in_range [OF o r]
  have n: "unat offset < length (blob_data bs)" "unat len \<le> length (blob_data bs) - unat offset"
    by simp_all
  from n show "read_from_file E fs f offset buffer len =
     (if rejected E (read_request E fs f offset len (length (blob_data bs)))
      then (TILEDB_FS_ERR, buffer,
            AZ_BLOB_ERROR Read_result_error f
              (fs\<lparr>bc := sent (read_request E fs f offset len (length (blob_data bs))) (bc fs)\<rparr>))
      else (TILEDB_FS_OK, take (unat len) (drop (unat offset) (blob_data bs)) @ drop (unat len) buffer,
            fs\<lparr>bc := sent (read_request E fs f offset len (length (blob_data bs))) (bc fs)\<rparr>))"
    by (simp add: read_download [OF b c l] min_absorb1)
  from n show "length (take (unat len) (drop (unat offset) (blob_data bs))) = unat len"
    by simp
qed

lemma read_ok_data:
  assumes ok: "read_from_file E fs f offset buffer len = (TILEDB_FS_OK, buf', fs')" and l: "len \<noteq> 0"
    and o: "0 \<le> sint offset" and w: "uint len + sint offset < 2 ^ 63"
  shows "\<exists>bs. map_of (blobs (bc fs)) (get_path E fs f) = Some bs \<and>
     unat offset + unat len \<le> length (blob_data bs) \<and>
     buf' = take (unat len) (drop (unat offset) (blob_data bs)) @ drop (unat len) buffer \<and>
     length (take (unat len) (drop (unat offset) (blob_data bs))) = unat len"
proof -
  from ok have "is_file E fs f"
    by (cases "is_file E fs f") (simp_all add: read_missing)
  then obtain bs where b: "map_of (blobs (bc fs)) (get_path E fs f) = Some bs"
    by (auto simp: is_file_property)
  from ok b have "\<not> int (length (blob_data bs)) < sint (len + offset)"
    by (cases "int (length (blob_data bs)) < sint (len + offset)") (simp_all add: read_past_end)
  with sint_add_no_wrap [OF o w] have r: "sint offset + uint len \<le> int (length (blob_data bs))"
    by simp
  from ok have "buf' = take (unat len) (drop (unat offset) (blob_data bs)) @ drop (unat len) buffer"
    unfolding read_valid(1) [OF b o w r l] by (simp split: if_splits)
  with b read_in_range [OF o r] read_valid(2) [OF b o w r l] show ?thesis by auto
qed

text \<open>
  C1 (amended). For every path, every offset that is not negative and every length such
  that offset + length fits into a signed 64-bit integer, the positional read either
  fills the caller's buffer with exactly \<open>len\<close> bytes or fails. \<^verbatim>\<open>read_from_file\<close>
  returns an error, and sends no request, when the file does not exist and when offset
  + length exceeds the file size; with length 0, an existing file and an offset not
  beyond its end, it returns success and touches neither the buffer nor the container;
  for a length other than 0 and a range that lies in the file it sends the one download
  request for \<open>len\<close> bytes from \<open>offset\<close> on and, unless the request fails, returns
  success with the first \<open>len\<close> bytes of the buffer replaced by exactly the bytes
  \<open>[offset, offset + len)\<close> of the file and the rest of the buffer as it was; when the
  request fails it returns an error and leaves the buffer alone. So whenever it returns
  success for a length other than 0, the buffer holds exactly the requested range.
\<close>

theorem read_from_file_exact:
  "(\<not> is_file E fs f \<longrightarrow>
       read_from_file E fs f offset buffer len =
         (TILEDB_FS_ERR, buffer, AZ_BLOB_ERROR File_does_not_exist f fs))
   \<and> (map_of (blobs (bc fs)) (get_path E fs f) = Some bs \<and>
         0 \<le> sint offset \<and> uint len + sint offset < 2 ^ 63 \<and>
         int (length (blob_data bs)) < sint offset + uint len \<longrightarrow>
       read_from_file E fs f offset buffer len =
         (TILEDB_FS_ERR, buffer, AZ_BLOB_ERROR Cannot_read_past_the_file_size f fs))
   \<and> (map_of (blobs (bc fs)) (get_path E fs f) = Some bs \<and>
         \<not> int (length (blob_data bs)) < sint offset \<longrightarrow>
       read_from_file E fs f offset buffer 0 = (TILEDB_FS_OK, buffer, fs))
   \<and> (map_of (blobs (bc fs)) (get_path E fs f) = Some bs \<and>
         0 \<le> sint offset \<and> uint len + sint offset < 2 ^ 63 \<and>
         sint offset + uint len \<le> int (length (blob_data bs)) \<and> len \<noteq> 0 \<longrightarrow>
       read_from_file E fs f offset buffer len =
         (if rejected E (read_request E fs f offset len (length (blob_data bs)))
          then (TILEDB_FS_ERR, buffer,
                AZ_BLOB_ERROR Read_result_error f
                  (fs\<lparr>bc := sent (read_request E fs f offset len (length (blob_data bs))) (bc fs)\<rparr>))
          else (TILEDB_FS_OK,
                take (unat len) (drop (unat offset) (blob_data bs)) @ drop (unat len) buffer,
                fs\<lparr>bc := sent (read_request E fs f offset len (length (blob_data bs))) (bc fs)\<rparr>))
       \<and> length (take (unat len) (drop (unat offset) (blob_data bs))) = unat len)
   \<and> (0 \<le> sint offset \<and> uint len + sint offset < 2 ^ 63 \<and>
       read_from_file E fs f offset buffer len = (TILEDB_FS_OK, buf', fs') \<and> len \<noteq> 0 \<longrightarrow>
       (\<exists>cs. map_of (blobs (bc fs)) (get_path E fs f) = Some cs \<and>
          unat offset + unat len \<le> length (blob_data cs) \<and>
          buf' = take (unat len) (drop (unat offset) (blob_data cs)) @ drop (unat len) buffer \<and>
          length (take (unat len) (drop (unat offset) (blob_data cs))) = unat len))"
proof (intro conjI impI)
  assume "\<not> is_file E fs f"
  then show "read_from_file E fs f offset buffer len =
         (TILEDB_FS_ERR, buffer, AZ_BLOB_ERROR File_does_not_exist f fs)"
    by (rule read_missing)
next
  assume "map_of (blobs (bc fs)) (get_path E fs f) = Some bs \<and>
         0 \<le> sint offset \<and> uint len + sint offset < 2 ^ 63 \<and>
         int (length (blob_data bs)) < sint offset + uint len"
  then show "read_from_file E fs f offset buffer len =
         (TILEDB_FS_ERR, buffer, AZ_BLOB_ERROR Cannot_read_past_the_file_size f fs)"
    using read_too_far [of fs E f bs offset len buffer] by blast
next
  assume "map_of (blobs (bc fs)) (get_path E fs f) = Some bs \<and>
         \<not> int (length (blob_data bs)) < sint offset"
  then show "read_from_file E fs f offset buffer 0 = (TILEDB_FS_OK, buffer, fs)"
    using read_nothing [of fs E f bs offset buffer] by simp
next
  assume a: "map_of (blobs (bc fs)) (get_path E fs f) = Some bs \<and>
         0 \<le> sint offset \<and> uint len + sint offset < 2 ^ 63 \<and>
         sint offset + uint len \<le> int (length (blob_data bs)) \<and> len \<noteq> 0"
  then show "read_from_file E fs f offset buffer len =
         (if rejected E (read_request E fs f offset len (length (blob_data bs)))
          then (TILEDB_FS_ERR, buffer,
                AZ_BLOB_ERROR Read_result_error f
                  (fs\<lparr>bc := sent (read_request E fs f offset len (length (blob_data bs))) (bc fs)\<rparr>))
          else (TILEDB_FS_OK,
                take (unat len) (drop (unat offset) (blob_data bs)) @ drop (unat len) buffer,
                fs\<lparr>bc := sent (read_request E fs f offset len (length (blob_data bs))) (bc fs)\<rparr>))"
    using read_valid(1) [of fs E f bs offset len buffer] by blast
  from a show "length (take (unat len) (drop (unat offset) (blob_data bs))) = unat len"
    using read_valid(2) [of fs E f bs offset len] by blast
next
  assume "0 \<le> sint offset \<and> uint len + sint offset < 2 ^ 63 \<and>
       read_from_file E fs f offset buffer len = (TILEDB_FS_OK, buf', fs') \<and> len \<noteq> 0"
  then show "\<exists>cs. map_of (blobs (bc fs)) (get_path E fs f) = Some cs \<and>
          unat offset + unat len \<le> length (blob_data cs) \<and>
          buf' = take (unat len) (drop (unat offset) (blob_data cs)) @ drop (unat len) buffer \<and>
          length (take (unat len) (drop (unat offset) (blob_data cs))) = unat len"
    using read_ok_data [of E fs f offset buffer len buf' fs'] by blast
qed

lemmas read_defs = read_from_file_def is_file_def blob_exists_def file_size_def get_blob_property_def
  blob_data_def download_blob_to_stream_def download_blob_to_buffer_def range_of_blob_def
  GRAIN_SIZE_def sent_def AZ_BLOB_ERROR_def get_path_def Let_def

text \<open>
  The claim as first stated, for every offset and length, fails where the signed sum
  wraps around. A length of \<open>2 ^ 63\<close> is negative as an \<^verbatim>\<open>ssize_t\<close>, so the size test
  passes for a file of five bytes although offset + length exceeds the file size; the
  range GET answers with the five bytes there are, and \<^verbatim>\<open>read_from_file\<close> returns
  success with five bytes in the buffer instead of \<open>2 ^ 63\<close>.
\<close>

theorem read_wrapped_length_counterexample:
  "int (length (blob_data [(0, [1, 2, 3, 4, 5])])) < sint (0 :: 64 word) + uint (9223372036854775808 :: 64 word)
   \<and> read_from_file (env_ref 4 (\<lambda>r. False)) (fs_ref ''ws'' [(''ws/f'', [(0, [1, 2, 3, 4, 5])])])
       ''ws/f'' 0 [0, 0, 0, 0, 0, 0, 0, 0] 9223372036854775808
     = (TILEDB_FS_OK, [1, 2, 3, 4, 5, 0, 0, 0],
        \<lparr>working_dir = ''ws'', write_map = Map.empty,
         bc = \<lparr>blobs = [(''ws/f'', [(0, [1, 2, 3, 4, 5])])], staged = [],
               requests = [Download_blob_to_stream ''ws/f'' 0 9223372036854775808]\<rparr>,
         tiledb_fs_errmsg = []\<rparr>)"
  by (simp add: read_defs ref_defs)

theorem read_from_file_exact_witness:
  "read_from_file (env_ref 4 (\<lambda>r. False)) (fs_ref ''ws'' [(''ws/f'', [(0, [1, 2, 3, 4, 5])])])
          ''ws/g'' 1 [0, 0, 0, 0] 3
     = (TILEDB_FS_ERR, [0, 0, 0, 0],
        (fs_ref ''ws'' [(''ws/f'', [(0, [1, 2, 3, 4, 5])])])
          \<lparr>tiledb_fs_errmsg := [(File_does_not_exist, ''ws/g'')]\<rparr>)
   \<and> read_from_file (env_ref 4 (\<lambda>r. False)) (fs_ref ''ws'' [(''ws/f'', [(0, [1, 2, 3, 4, 5])])])
          ''ws/f'' 4 [0, 0, 0, 0] 3
     = (TILEDB_FS_ERR, [0, 0, 0, 0],
        (fs_ref ''ws'' [(''ws/f'', [(0, [1, 2, 3, 4, 5])])])
          \<lparr>tiledb_fs_errmsg := [(Cannot_read_past_the_file_size, ''ws/f'')]\<rparr>)
   \<and> read_from_file (env_ref 4 (\<lambda>r. False)) (fs_ref ''ws'' [(''ws/f'', [(0, [1, 2, 3, 4, 5])])])
          ''ws/f'' 4 [0, 0, 0, 0] 0
        = (TILEDB_FS_OK, [0, 0, 0, 0], fs_ref ''ws'' [(''ws/f'', [(0, [1, 2, 3, 4, 5])])])
   \<and> read_from_file (env_ref 4 (\<lambda>r. False)) (fs_ref ''ws'' [(''ws/f'', [(0, [1, 2, 3, 4, 5])])])
          ''ws/f'' 1 [0, 0, 0, 0] 3
        = (TILEDB_FS_OK, [2, 3, 4, 0],
           (fs_ref ''ws'' [(''ws/f'', [(0, [1, 2, 3, 4, 5])])])
             \<lparr>bc := \<lparr>blobs = [(''ws/f'', [(0, [1, 2, 3, 4, 5])])], staged = [],
                     requests = [Download_blob_to_stream ''ws/f'' 1 3]\<rparr>\<rparr>)
   \<and> read_from_file (env_ref 4 (\<lambda>r. r = Download_blob_to_stream ''ws/f'' 1 3))
          (fs_ref ''ws'' [(''ws/f'', [(0, [1, 2, 3, 4, 5])])]) ''ws/f'' 1 [0, 0, 0, 0] 3
        = (TILEDB_FS_ERR, [0, 0, 0, 0],
           (fs_ref ''ws'' [(''ws/f'', [(0, [1, 2, 3, 4, 5])])])
             \<lparr>bc := \<lparr>blobs = [(''ws/f'', [(0, [1, 2, 3, 4, 5])])], staged = [],
                     requests = [Download_blob_to_stream ''ws/f'' 1 3]\<rparr>,
              tiledb_fs_errmsg := [(Read_result_error, ''ws/f'')]\<rparr>)
   \<and> (\<exists>buf' fs' cs.
         read_from_file (env_ref 4 (\<lambda>r. False)) (fs_ref ''ws'' [(''ws/f'', [(0, [1, 2, 3, 4, 5])])])
           ''ws/f'' 1 [0, 0, 0, 0] 3 = (TILEDB_FS_OK, buf', fs') \<and>
         map_of [(''ws/f'', [(0, [1, 2, 3, 4, 5 :: byte])])] ''ws/f'' = Some cs \<and>
         buf' = take 3 (drop 1 (blob_data cs)) @ drop 3 [0, 0, 0, 0] \<and>
         length (take 3 (drop 1 (blob_data cs))) = 3)"
proof -
  let ?E = "env_ref 4 (\<lambda>r. False)"
  let ?R = "env_ref 4 (\<lambda>r. r = Download_blob_to_stream ''ws/f'' 1 3)"
  let ?bs = "[(0 :: nat, [1, 2, 3, 4, 5 :: byte])]"
  let ?fs = "fs_ref ''ws'' [(''ws/f'', ?bs)]"
  let ?st = "\<lparr>blobs = [(''ws/f'', ?bs)], staged = [], requests = [Download_blob_to_stream ''ws/f'' 1 3]\<rparr>"
  have p: "get_path ?E ?fs ''ws/f'' = ''ws/f''" "get_path ?R ?fs ''ws/f'' = ''ws/f''"
    "blobs (bc ?fs) = [(''ws/f'', ?bs)]"
    by (simp_all add: ref_defs get_path_def)
  have m: "map_of (blobs (bc ?fs)) (get_path ?E ?fs ''ws/f'') = Some ?bs"
    "map_of (blobs (bc ?fs)) (get_path ?R ?fs ''ws/f'') = Some ?bs"
    unfolding p by simp_all
  have q: "read_request ?E ?fs ''ws/f'' 1 3 (length (blob_data ?bs)) = Download_blob_to_stream ''ws/f'' 1 3"
    "read_request ?R ?fs ''ws/f'' 1 3 (length (blob_data ?bs)) = Download_blob_to_stream ''ws/f'' 1 3"
    unfolding read_request_def p by (simp_all add: blob_data_def GRAIN_SIZE_def)
  have s: "sent (Download_blob_to_stream ''ws/f'' 1 3) (bc ?fs) = ?st"
    by (simp add: sent_def fs_ref_def)
  have e: "AZ_BLOB_ERROR File_does_not_exist ''ws/g'' ?fs
        = ?fs\<lparr>tiledb_fs_errmsg := [(File_does_not_exist, ''ws/g'')]\<rparr>"
    "AZ_BLOB_ERROR Cannot_read_past_the_file_size ''ws/f'' ?fs
        = ?fs\<lparr>tiledb_fs_errmsg := [(Cannot_read_past_the_file_size, ''ws/f'')]\<rparr>"
    "AZ_BLOB_ERROR Read_result_error ''ws/f'' (?fs\<lparr>bc := ?st\<rparr>)
        = ?fs\<lparr>bc := ?st, tiledb_fs_errmsg := [(Read_result_error, ''ws/f'')]\<rparr>"
    by (simp_all add: AZ_BLOB_ERROR_def fs_ref_def)
  have 1: "read_from_file ?E ?fs ''ws/g'' 1 [0, 0, 0, 0] 3
      = (TILEDB_FS_ERR, [0, 0, 0, 0], ?fs\<lparr>tiledb_fs_errmsg := [(File_does_not_exist, ''ws/g'')]\<rparr>)"
  proof -
    have "\<not> is_file ?E ?fs ''ws/g''"
      by (simp add: ref_defs is_file_def blob_exists_def get_path_def)
    with read_from_file_exact [of ?E ?fs "''ws/g''" 1 "[0, 0, 0, 0]" 3, THEN conjunct1]
    show ?thesis unfolding e by blast
  qed
  have 2: "read_from_file ?E ?fs ''ws/f'' 4 [0, 0, 0, 0] 3
      = (TILEDB_FS_ERR, [0, 0, 0, 0], ?fs\<lparr>tiledb_fs_errmsg := [(Cannot_read_past_the_file_size, ''ws/f'')]\<rparr>)"
  proof -
    have "0 \<le> sint (4 :: 64 word) \<and> uint (3 :: 64 word) + sint (4 :: 64 word) < 2 ^ 63 \<and>
        int (length (blob_data ?bs)) < sint (4 :: 64 word) + uint (3 :: 64 word)"
      by (simp add: blob_data_def)
    with m(1) read_from_file_exact [of ?E ?fs "''ws/f''" 4 "[0, 0, 0, 0]" 3 ?bs,
        THEN conjunct2, THEN conjunct1]
    show ?thesis unfolding e by blast
  qed
  have 3: "read_from_file ?E ?fs ''ws/f'' 4 [0, 0, 0, 0] 0 = (TILEDB_FS_OK, [0, 0, 0, 0], ?fs)"
  proof -
    have "\<not> int (length (blob_data ?bs)) < sint (4 :: 64 word)"
      by (simp add: blob_data_def)
    with m(1) read_from_file_exact [of ?E ?fs "''ws/f''" 4 "[0, 0, 0, 0]" 3 ?bs,
        THEN conjunct2, THEN conjunct2, THEN conjunct1]
    show ?thesis by blast
  qed
  have v: "0 \<le> sint (1 :: 64 word) \<and> uint (3 :: 64 word) + sint (1 :: 64 word) < 2 ^ 63 \<and>
        sint (1 :: 64 word) + uint (3 :: 64 word) \<le> int (length (blob_data ?bs)) \<and> (3 :: 64 word) \<noteq> 0"
    by (simp add: blob_data_def)
  have d: "take (unat (3 :: 64 word)) (drop (unat (1 :: 64 word)) (blob_data ?bs)) @
        drop (unat (3 :: 64 word)) [0, 0, 0, 0 :: byte] = [2, 3, 4, 0]"
    by (simp add: blob_data_def)
  have 4: "read_from_file ?E ?fs ''ws/f'' 1 [0, 0, 0, 0] 3 = (TILEDB_FS_OK, [2, 3, 4, 0], ?fs\<lparr>bc := ?st\<rparr>)"
  proof -
    have "\<not> rejected ?E (Download_blob_to_stream ''ws/f'' 1 3)" by (simp add: env_ref_def)
    with v m(1) read_from_file_exact [of ?E ?fs "''ws/f''" 1 "[0, 0, 0, 0]" 3 ?bs,
        THEN conjunct2, THEN conjunct2, THEN conjunct2, THEN conjunct1, unfolded q s d]
    show ?thesis by simp
  qed
  have 5: "read_from_file ?R ?fs ''ws/f'' 1 [0, 0, 0, 0] 3
      = (TILEDB_FS_ERR, [0, 0, 0, 0], ?fs\<lparr>bc := ?st, tiledb_fs_errmsg := [(Read_result_error, ''ws/f'')]\<rparr>)"
  proof -
    have "rejected ?R (Download_blob_to_stream ''ws/f'' 1 3)" by (simp add: env_ref_def)
    with v m(2) read_from_file_exact [of ?R ?fs "''ws/f''" 1 "[0, 0, 0, 0]" 3 ?bs,
        THEN conjunct2, THEN conjunct2, THEN conjunct2, THEN conjunct1, unfolded q s d e]
    show ?thesis by simp
  qed
  have "0 \<le> sint (1 :: 64 word) \<and> uint (3 :: 64 word) + sint (1 :: 64 word) < 2 ^ 63 \<and>
      read_from_file ?E ?fs ''ws/f'' 1 [0, 0, 0, 0] 3 = (TILEDB_FS_OK, [2, 3, 4, 0], ?fs\<lparr>bc := ?st\<rparr>) \<and>
      (3 :: 64 word) \<noteq> 0"
    using 4 by simp
  with read_from_file_exact [of ?E ?fs "''ws/f''" 1 "[0, 0, 0, 0]" 3 _ "[2, 3, 4, 0]" "?fs\<lparr>bc := ?st\<rparr>",
      THEN conjunct2, THEN conjunct2, THEN conjunct2, THEN conjunct2]
  have "\<exists>cs. map_of (blobs (bc ?fs)) (get_path ?E ?fs ''ws/f'') = Some cs \<and>
          unat (1 :: 64 word) + unat (3 :: 64 word) \<le> length (blob_data cs) \<and>
          [2, 3, 4, 0] = take (unat (3 :: 64 word)) (drop (unat (1 :: 64 word)) (blob_data cs)) @
             drop (unat (3 :: 64 word)) [0, 0, 0, 0] \<and>
          length (take (unat (3 :: 64 word)) (drop (unat (1 :: 64 word)) (blob_data cs))) = unat (3 :: 64 word)"
    by blast
  then have "\<exists>cs. map_of [(''ws/f'', [(0, [1, 2, 3, 4, 5 :: byte])])] ''ws/f'' = Some cs \<and>
          [2, 3, 4, 0] = take 3 (drop 1 (blob_data cs)) @ drop 3 [0, 0, 0, 0] \<and>
          length (take 3 (drop 1 (blob_data cs))) = 3"
    unfolding p by simp
  with 4 have 6: "\<exists>buf' fs' cs.
         read_from_file ?E ?fs ''ws/f'' 1 [0, 0, 0, 0] 3 = (TILEDB_FS_OK, buf', fs') \<and>
         map_of [(''ws/f'', [(0, [1, 2, 3, 4, 5 :: byte])])] ''ws/f'' = Some cs \<and>
         buf' = take 3 (drop 1 (blob_data cs)) @ drop 3 [0, 0, 0, 0] \<and>
         length (take 3 (drop 1 (blob_data cs))) = 3"
    by blast
  from 1 2 3 4 5 6 show ?thesis by blast
qed


lemma read_requests_download:
  assumes b: "map_of (blobs (bc fs)) (get_path E fs f) = Some bs"
    and c: "\<not> int (length (blob_data bs)) < sint (len + offset)"
    and l: "len \<noteq> 0"
  shows "requests (bc (snd (snd (read_from_file E fs f offset buffer len)))) =
     requests (bc fs) @ [read_request E fs f offset len (length (blob_data bs))]"
  by (simp add: read_download [OF b c l])

lemma read_requests_none:
  assumes "\<not> is_file E fs f \<or>
     (\<exists>bs. map_of (blobs (bc fs)) (get_path E fs f) = Some bs \<and>
           int (length (blob_data bs)) < sint (len + offset)) \<or> len = 0"
  shows "requests (bc (snd (snd (read_from_file E fs f offset buffer len)))) = requests (bc fs)"
proof (cases "is_file E fs f")
  case False
  then show ?thesis by (simp add: read_missing)
next
  case True
  then obtain bs where b: "map_of (blobs (bc fs)) (get_path E fs f) = Some bs"
    by (auto simp: is_file_property)
  show ?thesis
  proof (cases "int (length (blob_data bs)) < sint (len + offset)")
    case True
    with b show ?thesis by (simp add: read_past_end)
  next
    case False
    with assms True b have "len = 0" by auto
    with b False show ?thesis by (simp add: read_nothing)
  qed
qed

lemma read_large_file:
  fixes len offset :: "64 word"
  assumes c: "\<not> int n < sint (len + offset)"
    and g: "GRAIN_SIZE \<le> unat len" and o: "0 \<le> sint offset" and w: "uint len + sint offset < 2 ^ 63"
  shows "\<not> n < GRAIN_SIZE"
proof -
  from c sint_add_no_wrap [OF o w] have "uint len + sint offset \<le> int n" by simp
  with o have "uint len \<le> int n" by linarith
  then have "unat len \<le> n" unfolding uint_nat [of len] by linarith
  with g show ?thesis by simp
qed

text \<open>
  C4 (amended). The choice between the two download paths follows the size of the file,
  not the requested length. For every read that passes the checks with a length other
  than 0: when the file is smaller than 4 MiB the read is one range GET
  (\<^verbatim>\<open>download_blob_to_stream\<close>), and when the file has 4 MiB or more it is the client's
  parallel download into the caller's buffer (\<^verbatim>\<open>download_blob_to_buffer\<close>, with half
  the hardware concurrency as parallelism), whatever the requested length. So a read of
  4 MiB or more (with a non-negative offset and no overflow of offset + length) is
  always served by the parallel download. A read that fails a check, or has length 0,
  sends no request.
\<close>

theorem read_from_file_request_by_file_size:
  "(map_of (blobs (bc fs)) (get_path E fs f) = Some bs \<and>
      \<not> int (length (blob_data bs)) < sint (len + offset) \<and> len \<noteq> 0 \<longrightarrow>
      requests (bc (snd (snd (read_from_file E fs f offset buffer len)))) =
        requests (bc fs) @
          [if length (blob_data bs) < GRAIN_SIZE
           then Download_blob_to_stream (get_path E fs f) (unat offset) (unat len)
           else Download_blob_to_buffer (get_path E fs f) (unat offset) (unat len)
                  (hardware_concurrency E div 2)])
   \<and> (map_of (blobs (bc fs)) (get_path E fs f) = Some bs \<and>
      \<not> int (length (blob_data bs)) < sint (len + offset) \<and>
      GRAIN_SIZE \<le> unat len \<and> 0 \<le> sint offset \<and> uint len + sint offset < 2 ^ 63 \<longrightarrow>
      requests (bc (snd (snd (read_from_file E fs f offset buffer len)))) =
        requests (bc fs) @
          [Download_blob_to_buffer (get_path E fs f) (unat offset) (unat len)
             (hardware_concurrency E div 2)])
   \<and> (\<not> is_file E fs f \<or>
      (\<exists>cs. map_of (blobs (bc fs)) (get_path E fs f) = Some cs \<and>
            int (length (blob_data cs)) < sint (len + offset)) \<or> len = 0 \<longrightarrow>
      requests (bc (snd (snd (read_from_file E fs f offset buffer len)))) = requests (bc fs))"
proof (intro conjI impI)
  assume a: "map_of (blobs (bc fs)) (get_path E fs f) = Some bs \<and>
      \<not> int (length (blob_data bs)) < sint (len + offset) \<and> len \<noteq> 0"
  then show "requests (bc (snd (snd (read_from_file E fs f offset buffer len)))) =
        requests (bc fs) @
          [if length (blob_data bs) < GRAIN_SIZE
           then Download_blob_to_stream (get_path E fs f) (unat offset) (unat len)
           else Download_blob_to_buffer (get_path E fs f) (unat offset) (unat len)
                  (hardware_concurrency E div 2)]"
    using read_requests_download [of fs E f bs len offset buffer]
    by (simp add: read_request_def)
next
  assume a: "map_of (blobs (bc fs)) (get_path E fs f) = Some bs \<and>
      \<not> int (length (blob_data bs)) < sint (len + offset) \<and>
      GRAIN_SIZE \<le> unat len \<and> 0 \<le> sint offset \<and> uint len + sint offset < 2 ^ 63"
  then have big: "\<not> length (blob_data bs) < GRAIN_SIZE"
    using read_large_file [of "length (blob_data bs)" len offset] by blast
  from a have "len \<noteq> 0" by (auto simp: GRAIN_SIZE_def)
  with a big show "requests (bc (snd (snd (read_from_file E fs f offset buffer len)))) =
        requests (bc fs) @
          [Download_blob_to_buffer (get_path E fs f) (unat offset) (unat len)
             (hardware_concurrency E div 2)]"
    using read_requests_download [of fs E f bs len offset buffer]
    by (simp add: read_request_def)
next
  assume "\<not> is_file E fs f \<or>
      (\<exists>cs. map_of (blobs (bc fs)) (get_path E fs f) = Some cs \<and>
            int (length (blob_data cs)) < sint (len + offset)) \<or> len = 0"
  then show "requests (bc (snd (snd (read_from_file E fs f offset buffer len)))) = requests (bc fs)"
    by (rule read_requests_none)
qed

text \<open>
  The claim as first stated fails for a small read from a large file: one byte read from
  a file of 4 MiB goes through the parallel download, not through a single range GET.
\<close>

theorem read_small_from_large_file_counterexample:
  "unat (1 :: 64 word) < GRAIN_SIZE
   \<and> read_from_file (env_ref 4 (\<lambda>r. False)) (fs_ref ''ws'' [(''ws/big'', [(0, replicate 4194304 7)])])
       ''ws/big'' 0 [0] 1
     = (TILEDB_FS_OK, [7],
        \<lparr>working_dir = ''ws'', write_map = Map.empty,
         bc = \<lparr>blobs = [(''ws/big'', [(0, replicate 4194304 7)])], staged = [],
               requests = [Download_blob_to_buffer ''ws/big'' 0 1 2]\<rparr>,
         tiledb_fs_errmsg = []\<rparr>)"
  by (simp add: read_defs ref_defs)


theorem read_from_file_request_by_file_size_witness:
  "requests (bc (snd (snd (read_from_file (env_ref 4 (\<lambda>r. False))
       (fs_ref ''ws'' [(''ws/f'', [(0, [1, 2, 3, 4, 5])])]) ''ws/f'' 1 [0, 0, 0, 0] 3))))
     = [Download_blob_to_stream ''ws/f'' 1 3]
   \<and> requests (bc (snd (snd (read_from_file (env_ref 4 (\<lambda>r. False))
       (fs_ref ''ws'' [(''ws/big'', [(0, replicate 4194304 7)])]) ''ws/big'' 0 (replicate 4194304 0) 4194304))))
     = [Download_blob_to_buffer ''ws/big'' 0 4194304 2]
   \<and> requests (bc (snd (snd (read_from_file (env_ref 4 (\<lambda>r. False))
       (fs_ref ''ws'' [(''ws/f'', [(0, [1, 2, 3, 4, 5])])]) ''ws/g'' 1 [0, 0, 0, 0] 3))))
     = []"
proof -
  let ?E = "env_ref 4 (\<lambda>r. False)"
  let ?fs = "fs_ref ''ws'' [(''ws/f'', [(0, [1, 2, 3, 4, 5])])]"
  let ?big = "fs_ref ''ws'' [(''ws/big'', [(0, replicate 4194304 7)])]"
  have g: "get_path ?E ?fs ''ws/f'' = ''ws/f''" "get_path ?E ?big ''ws/big'' = ''ws/big''"
    "requests (bc ?fs) = []" "requests (bc ?big) = []" "hardware_concurrency ?E div 2 = 2"
    by (simp_all add: ref_defs get_path_def)
  have 1: "requests (bc (snd (snd (read_from_file ?E ?fs ''ws/f'' 1 [0, 0, 0, 0] 3))))
      = [Download_blob_to_stream ''ws/f'' 1 3]"
  proof -
    have h: "map_of (blobs (bc ?fs)) ''ws/f'' = Some [(0, [1, 2, 3, 4, 5])] \<and>
        \<not> int (length (blob_data [(0, [1, 2, 3, 4, 5 :: byte])])) < sint (3 + 1 :: 64 word) \<and>
        (3 :: 64 word) \<noteq> 0"
      by (simp add: ref_defs blob_data_def)
    have sm: "length (blob_data [(0, [1, 2, 3, 4, 5 :: byte])]) < GRAIN_SIZE"
      by (simp add: blob_data_def GRAIN_SIZE_def)
    from read_from_file_request_by_file_size
      [of ?fs ?E "''ws/f''" "[(0, [1, 2, 3, 4, 5])]" 3 1 "[0, 0, 0, 0]", unfolded g, THEN conjunct1] h
    have "requests (bc (snd (snd (read_from_file ?E ?fs ''ws/f'' 1 [0, 0, 0, 0] 3)))) =
        [] @ [if length (blob_data [(0, [1, 2, 3, 4, 5 :: byte])]) < GRAIN_SIZE
           then Download_blob_to_stream ''ws/f'' (unat (1 :: 64 word)) (unat (3 :: 64 word))
           else Download_blob_to_buffer ''ws/f'' (unat (1 :: 64 word)) (unat (3 :: 64 word)) 2]"
      by blast
    with sm show ?thesis by simp
  qed
  have 2: "requests (bc (snd (snd (read_from_file ?E ?big ''ws/big'' 0 (replicate 4194304 0) 4194304))))
      = [Download_blob_to_buffer ''ws/big'' 0 4194304 2]"
  proof -
    have h: "map_of (blobs (bc ?big)) ''ws/big'' = Some [(0, replicate 4194304 7)] \<and>
        \<not> int (length (blob_data [(0, replicate 4194304 (7 :: byte))])) < sint (4194304 + 0 :: 64 word) \<and>
        GRAIN_SIZE \<le> unat (4194304 :: 64 word) \<and> 0 \<le> sint (0 :: 64 word) \<and>
        uint (4194304 :: 64 word) + sint (0 :: 64 word) < 2 ^ 63"
      by (simp add: ref_defs blob_data_def GRAIN_SIZE_def)
    from read_from_file_request_by_file_size
      [of ?big ?E "''ws/big''" "[(0, replicate 4194304 7)]" 4194304 0 "replicate 4194304 0",
        unfolded g, THEN conjunct2, THEN conjunct1] h
    have "requests (bc (snd (snd (read_from_file ?E ?big ''ws/big'' 0 (replicate 4194304 0) 4194304)))) =
        [] @ [Download_blob_to_buffer ''ws/big'' (unat (0 :: 64 word)) (unat (4194304 :: 64 word)) 2]"
      by blast
    then show ?thesis by simp
  qed
  have 3: "requests (bc (snd (snd (read_from_file ?E ?fs ''ws/g'' 1 [0, 0, 0, 0] 3)))) = []"
  proof -
    have "\<not> is_file ?E ?fs ''ws/g''"
      by (simp add: ref_defs is_file_def blob_exists_def get_path_def)
    with read_from_file_request_by_file_size
      [of ?fs ?E "''ws/g''" "[]" 3 1 "[0, 0, 0, 0]", unfolded g, THEN conjunct2, THEN conjunct2]
    show ?thesis by blast
  qed
  from 1 2 3 show ?thesis by blast
qed

subsection \<open>The image panel example\<close>

lemma check_pixel_step:
  "p_idx (check_pixel buf j st) = p_idx st + 1 \<and> q_idx (check_pixel buf j st) = q_idx st + 1 \<and>
   r_idx (check_pixel buf j st) = r_idx st + 1 \<and> errors st \<le> errors (check_pixel buf j st) \<and>
   (errors (check_pixel buf j st) = errors st \<longleftrightarrow> pixel_ok buf j (p_idx st) (q_idx st) (r_idx st))"
  by (simp add: check_pixel_def pixel_ok_def Let_def)

lemma fold_scan:
  assumes step: "\<And>x st. x \<in> set xs \<Longrightarrow>
      p_idx (body x st) = p_idx st + m \<and> q_idx (body x st) = q_idx st + m \<and>
      r_idx (body x st) = r_idx st + m \<and> errors st \<le> errors (body x st) \<and>
      (errors (body x st) = errors st \<longleftrightarrow> P x (p_idx st) (q_idx st) (r_idx st))"
  shows "p_idx (fold body xs st) = p_idx st + length xs * m \<and>
      q_idx (fold body xs st) = q_idx st + length xs * m \<and>
      r_idx (fold body xs st) = r_idx st + length xs * m \<and> errors st \<le> errors (fold body xs st) \<and>
      (errors (fold body xs st) = errors st \<longleftrightarrow>
         (\<forall>n<length xs. P (xs ! n) (p_idx st + n * m) (q_idx st + n * m) (r_idx st + n * m)))"
  using step
proof (induction xs arbitrary: st)
  case Nil
  then show ?case by simp
next
  case (Cons x xs)
  have s: "p_idx (body x st) = p_idx st + m \<and> q_idx (body x st) = q_idx st + m \<and>
      r_idx (body x st) = r_idx st + m \<and> errors st \<le> errors (body x st) \<and>
      (errors (body x st) = errors st \<longleftrightarrow> P x (p_idx st) (q_idx st) (r_idx st))"
    by (rule Cons.prems) simp
  have ih: "p_idx (fold body xs (body x st)) = p_idx (body x st) + length xs * m \<and>
      q_idx (fold body xs (body x st)) = q_idx (body x st) + length xs * m \<and>
      r_idx (fold body xs (body x st)) = r_idx (body x st) + length xs * m \<and>
      errors (body x st) \<le> errors (fold body xs (body x st)) \<and>
      (errors (fold body xs (body x st)) = errors (body x st) \<longleftrightarrow>
         (\<forall>n<length xs. P (xs ! n) (p_idx (body x st) + n * m) (q_idx (body x st) + n * m)
              (r_idx (body x st) + n * m)))"
    by (rule Cons.IH) (rule Cons.prems, simp)
  have e: "errors (fold body xs (body x st)) = errors st \<longleftrightarrow>
      errors (body x st) = errors st \<and> errors (fold body xs (body x st)) = errors (body x st)"
    using s ih by linarith
  have a: "(\<forall>n<Suc (length xs). P ((x # xs) ! n) (p_idx st + n * m) (q_idx st + n * m) (r_idx st + n * m))
      \<longleftrightarrow> P x (p_idx st) (q_idx st) (r_idx st) \<and>
        (\<forall>n<length xs. P (xs ! n) (p_idx st + m + n * m) (q_idx st + m + n * m) (r_idx st + m + n * m))"
    by (simp add: All_less_Suc2 add.assoc)
  from s ih e a show ?case
    by (simp add: add.assoc)
qed


lemma k_loop:
  "p_idx (fold (\<lambda>k. check_pixel buf j) [0..<100] st) = p_idx st + 100 \<and>
   q_idx (fold (\<lambda>k. check_pixel buf j) [0..<100] st) = q_idx st + 100 \<and>
   r_idx (fold (\<lambda>k. check_pixel buf j) [0..<100] st) = r_idx st + 100 \<and>
   errors st \<le> errors (fold (\<lambda>k. check_pixel buf j) [0..<100] st) \<and>
   (errors (fold (\<lambda>k. check_pixel buf j) [0..<100] st) = errors st \<longleftrightarrow>
      (\<forall>k<100. pixel_ok buf j (p_idx st + k) (q_idx st + k) (r_idx st + k)))"
  using fold_scan [where xs = "[0..<100]" and body = "\<lambda>k. check_pixel buf j" and m = 1
      and P = "\<lambda>k. pixel_ok buf j" and st = st]
    check_pixel_step [of buf j]
  by simp

lemma j_loop:
  "p_idx (fold (\<lambda>j. fold (\<lambda>k. check_pixel buf j) [0..<100]) [c..<c + 3] st) = p_idx st + 300 \<and>
   q_idx (fold (\<lambda>j. fold (\<lambda>k. check_pixel buf j) [0..<100]) [c..<c + 3] st) = q_idx st + 300 \<and>
   r_idx (fold (\<lambda>j. fold (\<lambda>k. check_pixel buf j) [0..<100]) [c..<c + 3] st) = r_idx st + 300 \<and>
   errors st \<le> errors (fold (\<lambda>j. fold (\<lambda>k. check_pixel buf j) [0..<100]) [c..<c + 3] st) \<and>
   (errors (fold (\<lambda>j. fold (\<lambda>k. check_pixel buf j) [0..<100]) [c..<c + 3] st) = errors st \<longleftrightarrow>
      (\<forall>pc<3. \<forall>k<100. pixel_ok buf (c + pc) (p_idx st + pc * 100 + k) (q_idx st + pc * 100 + k)
           (r_idx st + pc * 100 + k)))"
  using fold_scan [where xs = "[c..<c + 3]" and body = "\<lambda>j. fold (\<lambda>k. check_pixel buf j) [0..<100]"
      and m = 100 and P = "\<lambda>j p q r. \<forall>k<100. pixel_ok buf j (p + k) (q + k) (r + k)" and st = st]
    k_loop [of buf]
  by simp

lemma i_loop:
  "p_idx (fold (\<lambda>i. fold (\<lambda>j. fold (\<lambda>k. check_pixel buf j) [0..<100]) [c..<c + 3]) [0..<100] st)
     = p_idx st + 30000 \<and>
   q_idx (fold (\<lambda>i. fold (\<lambda>j. fold (\<lambda>k. check_pixel buf j) [0..<100]) [c..<c + 3]) [0..<100] st)
     = q_idx st + 30000 \<and>
   r_idx (fold (\<lambda>i. fold (\<lambda>j. fold (\<lambda>k. check_pixel buf j) [0..<100]) [c..<c + 3]) [0..<100] st)
     = r_idx st + 30000 \<and>
   errors st \<le> errors (fold (\<lambda>i. fold (\<lambda>j. fold (\<lambda>k. check_pixel buf j) [0..<100]) [c..<c + 3]) [0..<100] st) \<and>
   (errors (fold (\<lambda>i. fold (\<lambda>j. fold (\<lambda>k. check_pixel buf j) [0..<100]) [c..<c + 3]) [0..<100] st)
      = errors st \<longleftrightarrow>
      (\<forall>i<100. \<forall>pc<3. \<forall>k<100. pixel_ok buf (c + pc) (p_idx st + i * 300 + pc * 100 + k)
           (q_idx st + i * 300 + pc * 100 + k) (r_idx st + i * 300 + pc * 100 + k)))"
  using fold_scan [where xs = "[0..<100]"
      and body = "\<lambda>i. fold (\<lambda>j. fold (\<lambda>k. check_pixel buf j) [0..<100]) [c..<c + 3]"
      and m = 300
      and P = "\<lambda>i p q r. \<forall>pc<3. \<forall>k<100. pixel_ok buf (c + pc) (p + pc * 100 + k) (q + pc * 100 + k)
                 (r + pc * 100 + k)" and st = st]
    j_loop [of buf c]
  by simp


lemma c_loop:
  "errors (fold (\<lambda>c. fold (\<lambda>i. fold (\<lambda>j. fold (\<lambda>k. check_pixel buf j) [0..<100]) [c..<c + 3]) [0..<100])
             [0, 3, 6] st) = errors st \<longleftrightarrow>
     (\<forall>n<3. \<forall>i<100. \<forall>pc<3. \<forall>k<100.
        pixel_ok buf ([0, 3, 6] ! n + pc) (p_idx st + n * 30000 + i * 300 + pc * 100 + k)
          (q_idx st + n * 30000 + i * 300 + pc * 100 + k) (r_idx st + n * 30000 + i * 300 + pc * 100 + k))"
proof -
  have l: "length [0, 3, 6 :: nat] = 3" by simp
  show ?thesis
    by (rule fold_scan [where xs = "[0, 3, 6]"
      and body = "\<lambda>c. fold (\<lambda>i. fold (\<lambda>j. fold (\<lambda>k. check_pixel buf j) [0..<100]) [c..<c + 3]) [0..<100]"
      and m = 30000
      and P = "\<lambda>c p q r. \<forall>i<100. \<forall>pc<3. \<forall>k<100. pixel_ok buf (c + pc) (p + i * 300 + pc * 100 + k)
                 (q + i * 300 + pc * 100 + k) (r + i * 300 + pc * 100 + k)" and st = st,
      unfolded l, THEN conjunct2, THEN conjunct2, THEN conjunct2, THEN conjunct2])
     (rule i_loop)
qed

lemma panel_rows: "n < 3 \<Longrightarrow> [0, 3, 6] ! n = 3 * n"
  by (auto simp: less_Suc_eq numeral_3_eq_3)

text \<open>
  What \<^verbatim>\<open>check_results\<close> checks: it finds no error in a buffer of 270000 values
  exactly when, in each channel plane read as 300 scanlines of 300 pixels, panel
  \<open>(pr, pc)\<close> holds nothing but entry \<open>3 * pr + pc\<close> of the palette.
\<close>

lemma check_successful_iff:
  assumes "length buf = 270000"
  shows "check_successful buf \<longleftrightarrow>
     (\<forall>pr<3. \<forall>i<100. \<forall>pc<3. \<forall>k<100.
        pixel_ok buf (3 * pr + pc) ((pr * 100 + i) * 300 + pc * 100 + k)
          (90000 + ((pr * 100 + i) * 300 + pc * 100 + k)) (180000 + ((pr * 100 + i) * 300 + pc * 100 + k)))"
proof -
  let ?st0 = "\<lparr>p_idx = 0, q_idx = 90000, r_idx = 180000, errors = 0,
      Rerrs = replicate 9 0, Gerrs = replicate 9 0, Berrs = replicate 9 0\<rparr>"
  have "check_successful buf \<longleftrightarrow>
      errors (fold (\<lambda>c. fold (\<lambda>i. fold (\<lambda>j. fold (\<lambda>k. check_pixel buf j) [0..<100]) [c..<c + 3]) [0..<100])
             [0, 3, 6] ?st0) = errors ?st0"
    using assms by (simp add: check_successful_def check_results_def)
  also have "\<dots> \<longleftrightarrow> (\<forall>n<3. \<forall>i<100. \<forall>pc<3. \<forall>k<100.
        pixel_ok buf ([0, 3, 6] ! n + pc) (n * 30000 + i * 300 + pc * 100 + k)
          (90000 + n * 30000 + i * 300 + pc * 100 + k) (180000 + n * 30000 + i * 300 + pc * 100 + k))"
    unfolding c_loop by simp
  also have "\<dots> \<longleftrightarrow> (\<forall>pr<3. \<forall>i<100. \<forall>pc<3. \<forall>k<100.
        pixel_ok buf (3 * pr + pc) ((pr * 100 + i) * 300 + pc * 100 + k)
          (90000 + ((pr * 100 + i) * 300 + pc * 100 + k)) (180000 + ((pr * 100 + i) * 300 + pc * 100 + k)))"
    by (simp add: panel_rows algebra_simps cong: all_cong1 imp_cong)
  finally show ?thesis .
qed


text \<open>The coordinate algebra of the 3 by 3 grid of tiles of 100 by 100 cells.\<close>

lemmas grid_defs = dom_lo_def dom_hi_def tile_extent_def tiles_per_axis_def tile_cells_def
  num_tiles_def

lemma grid_sizes: "num_tiles = 9" "tile_cells = 10000"
  by (simp_all add: grid_defs)

lemma in_domain_iff: "in_domain c \<longleftrightarrow> fst c < 300 \<and> snd c < 300"
  by (auto simp: in_domain_def grid_defs)

lemma tile_id_eq: "tile_id c = fst c div 100 + snd c div 100 * 3"
  by (simp add: tile_id_def grid_defs)

lemma cell_pos_eq: "cell_pos c = fst c mod 100 * 100 + snd c mod 100"
  by (simp add: cell_pos_def tile_lo_def grid_defs minus_div_mult_eq_mod)

lemma cell_coord_eq: "cell_coord t k = (t mod 3 * 100 + k div 100, t div 3 * 100 + k mod 100)"
  by (simp add: cell_coord_def grid_defs)

lemma slot_in_range:
  assumes "in_domain c"
  shows "tile_id c < 9" and "cell_pos c < 10000"
proof -
  from assms have "fst c < 3 * 100" "snd c < 3 * 100"
    by (simp_all add: in_domain_iff)
  then have "fst c div 100 < 3" "snd c div 100 < 3"
    by (simp_all only: less_mult_imp_div_less)
  then show "tile_id c < 9" unfolding tile_id_eq by linarith
  have "fst c mod 100 < 100" "snd c mod 100 < 100" by simp_all
  then show "cell_pos c < 10000" unfolding cell_pos_eq by linarith
qed

lemma cell_coord_slot:
  assumes "in_domain c"
  shows "cell_coord (tile_id c) (cell_pos c) = c"
proof -
  from assms have "fst c < 3 * 100"
    by (simp add: in_domain_iff)
  then have "fst c div 100 < 3"
    by (rule less_mult_imp_div_less)
  then have t: "(fst c div 100 + snd c div 100 * 3) mod 3 = fst c div 100"
    "(fst c div 100 + snd c div 100 * 3) div 3 = snd c div 100"
    by simp_all
  have k: "(fst c mod 100 * 100 + snd c mod 100) div 100 = fst c mod 100"
    "(fst c mod 100 * 100 + snd c mod 100) mod 100 = snd c mod 100"
    by simp_all
  show ?thesis
    unfolding cell_coord_eq tile_id_eq cell_pos_eq t k by (simp add: prod_eq_iff)
qed

lemma slot_cell_coord:
  assumes "t < 9" and "k < 10000"
  shows "in_domain (cell_coord t k)" and "tile_id (cell_coord t k) = t"
    and "cell_pos (cell_coord t k) = k"
proof -
  from assms have b: "t mod 3 < 3" "t div 3 < 3" "k div 100 < 100" "k mod 100 < 100"
    by simp_all
  then have "t mod 3 * 100 + k div 100 < 300" "t div 3 * 100 + k mod 100 < 300"
    by linarith+
  then show "in_domain (cell_coord t k)"
    by (simp add: in_domain_iff cell_coord_eq)
  from b have d: "(t mod 3 * 100 + k div 100) div 100 = t mod 3"
    "(t div 3 * 100 + k mod 100) div 100 = t div 3"
    "(t mod 3 * 100 + k div 100) mod 100 = k div 100"
    "(t div 3 * 100 + k mod 100) mod 100 = k mod 100"
    by simp_all
  show "tile_id (cell_coord t k) = t"
    unfolding cell_coord_eq tile_id_eq fst_conv snd_conv d by simp
  show "cell_pos (cell_coord t k) = k"
    unfolding cell_coord_eq cell_pos_eq fst_conv snd_conv d by simp
qed

lemma cell_coord_eq_iff:
  assumes "in_domain c" and "t < 9" and "k < 10000"
  shows "cell_coord t k = c \<longleftrightarrow> t = tile_id c \<and> k = cell_pos c"
  using cell_coord_slot [OF assms(1)] slot_cell_coord(2,3) [OF assms(2,3)] by auto

lemma panel_of_cell_coord:
  assumes "t < 9" and "k < 10000"
  shows "panel_of (cell_coord t k) = 3 * (t mod 3) + t div 3"
proof -
  from assms have "k div 100 < 100" "k mod 100 < 100" by simp_all
  then show ?thesis
    by (simp add: panel_of_def cell_coord_eq)
qed

text \<open>Writing a cell changes the position of its coordinate and no other.\<close>

lemma tiles_ok_iff: "tiles_ok ts \<longleftrightarrow> length ts = 9 \<and> (\<forall>t<9. length (ts ! t) = 10000)"
  by (auto simp: tiles_ok_def grid_sizes list_all_length)

lemma tiles_ok_empty: "tiles_ok empty_tiles"
  by (simp add: tiles_ok_iff empty_tiles_def grid_sizes)

lemma write_cell_lookup:
  assumes ok: "tiles_ok ts" and c: "in_domain c"
  shows "tiles_ok (write_cell (c, v) ts)"
    and "t < 9 \<Longrightarrow> k < 10000 \<Longrightarrow>
         write_cell (c, v) ts ! t ! k = (if cell_coord t k = c then Some v else ts ! t ! k)"
proof -
  from ok have l: "length ts = 9" "\<And>t. t < 9 \<Longrightarrow> length (ts ! t) = 10000"
    by (simp_all add: tiles_ok_iff)
  note s = slot_in_range [OF c]
  show "tiles_ok (write_cell (c, v) ts)"
    using l s by (simp add: tiles_ok_iff write_cell_def nth_list_update)
  assume t: "t < 9" and k: "k < 10000"
  show "write_cell (c, v) ts ! t ! k = (if cell_coord t k = c then Some v else ts ! t ! k)"
    unfolding cell_coord_eq_iff [OF c t k]
    using l s t k by (auto simp: write_cell_def nth_list_update)
qed

lemma write_cells_lookup:
  assumes "tiles_ok ts" and "list_all (\<lambda>cell. in_domain (fst cell)) cells"
    and "distinct (map fst cells)"
  shows "tiles_ok (fold write_cell cells ts) \<and>
     (\<forall>t<9. \<forall>k<10000. fold write_cell cells ts ! t ! k =
        (case map_of cells (cell_coord t k) of Some v \<Rightarrow> Some v | None \<Rightarrow> ts ! t ! k))"
  using assms
proof (induction cells arbitrary: ts)
  case Nil
  then show ?case by simp
next
  case (Cons cell cells)
  obtain c v where cell: "cell = (c, v)" by (cases cell)
  from Cons.prems cell have c: "in_domain c" and rest: "list_all (\<lambda>cell. in_domain (fst cell)) cells"
    and d: "distinct (map fst cells)" and fresh: "map_of cells c = None"
    by (simp_all add: map_of_eq_None_iff)
  note w = write_cell_lookup [OF Cons.prems(1) c, where v = v]
  from Cons.IH [OF w(1) rest d]
  have ih: "tiles_ok (fold write_cell cells (write_cell (c, v) ts))"
    "\<And>t k. t < 9 \<Longrightarrow> k < 10000 \<Longrightarrow> fold write_cell cells (write_cell (c, v) ts) ! t ! k =
        (case map_of cells (cell_coord t k) of Some v \<Rightarrow> Some v
         | None \<Rightarrow> write_cell (c, v) ts ! t ! k)"
    by simp_all
  have "fold write_cell (cell # cells) ts ! t ! k =
        (case map_of (cell # cells) (cell_coord t k) of Some v \<Rightarrow> Some v | None \<Rightarrow> ts ! t ! k)"
    if "t < 9" "k < 10000" for t k
    using ih(2) [OF that] w(2) [OF that] fresh
    by (cases "cell_coord t k = c") (simp_all add: cell split: option.split)
  with ih(1) show ?case by (simp add: cell)
qed

text \<open>
  A write of one cell per coordinate of the domain, and the read of the whole domain
  after it: the read emits, tile by tile, every cell with the value written at its
  coordinate.
\<close>

lemma map_filter_all_Some:
  "(\<And>x. x \<in> set xs \<Longrightarrow> f x = Some (g x)) \<Longrightarrow> List.map_filter f xs = map g xs"
  by (induction xs) (simp_all add: List.map_filter_simps)

lemma write_dense_image:
  "\<exists>ts. write_dense (map (\<lambda>c. (c, g c)) (List.product [0..<300] [0..<300])) = Some ts \<and>
        tiles_ok ts \<and> (\<forall>t<9. \<forall>k<10000. ts ! t ! k = Some (g (cell_coord t k)))"
proof -
  let ?cells = "map (\<lambda>c. (c, g c)) (List.product [0..<300] [0..<300])"
  have dom: "list_all (\<lambda>cell. in_domain (fst cell)) ?cells"
    by (auto simp: list_all_iff in_domain_iff)
  have fst: "map fst ?cells = List.product [0..<300] [0..<300]"
    by (simp add: comp_def)
  have dis: "distinct (map fst ?cells)"
    unfolding fst by (simp add: distinct_product)
  from write_cells_lookup [OF tiles_ok_empty dom dis]
  have ok: "tiles_ok (fold write_cell ?cells empty_tiles)"
    and look: "\<And>t k. t < 9 \<Longrightarrow> k < 10000 \<Longrightarrow> fold write_cell ?cells empty_tiles ! t ! k =
        (case map_of ?cells (cell_coord t k) of Some v \<Rightarrow> Some v | None \<Rightarrow> empty_tiles ! t ! k)"
    by simp_all
  have "fold write_cell ?cells empty_tiles ! t ! k = Some (g (cell_coord t k))"
    if "t < 9" "k < 10000" for t k
  proof -
    from slot_cell_coord(1) [OF that] have "cell_coord t k \<in> set (List.product [0..<300] [0..<300])"
      by (cases "cell_coord t k") (simp add: in_domain_iff)
    then have "map_of ?cells (cell_coord t k) = Some (g (cell_coord t k))"
      by (simp add: map_of_map_restrict)
    with look [OF that] show ?thesis by simp
  qed
  with ok dom show ?thesis
    by (simp add: write_dense_def)
qed

lemma read_dense_image:
  assumes "\<forall>t<9. \<forall>k<10000. ts ! t ! k = Some (g (cell_coord t k))"
  shows "read_dense ts =
     map (\<lambda>(t, k). (cell_coord t k, g (cell_coord t k))) (List.product [0..<9] [0..<10000])"
  unfolding read_dense_def grid_sizes
  by (rule map_filter_all_Some) (use assms in auto)

lemma inj_cell_coord:
  "inj_on (\<lambda>(t, k). cell_coord t k) (set (List.product [0..<9] [0..<10000]))"
proof (rule inj_onI)
  fix x y
  assume x: "x \<in> set (List.product [0..<9] [0..<10000])"
    and y: "y \<in> set (List.product [0..<9] [0..<10000])"
    and e: "(case x of (t, k) \<Rightarrow> cell_coord t k) = (case y of (t, k) \<Rightarrow> cell_coord t k)"
  obtain t k where xe: "x = (t, k)" by (cases x)
  obtain t' k' where ye: "y = (t', k')" by (cases y)
  from x y xe ye have b: "t < 9" "k < 10000" "t' < 9" "k' < 10000" by simp_all
  from e xe ye have "cell_coord t k = cell_coord t' k'" by simp
  with slot_cell_coord(2,3) [OF b(1,2)] slot_cell_coord(2,3) [OF b(3,4)]
  have "t = t'" "k = k'" by simp_all
  with xe ye show "x = y" by simp
qed

text \<open>
  The cells read back from the array written from an image \<open>g\<close>: 90000 cells, one for
  every coordinate of the domain, with the value of the image at that coordinate; the
  cells of tile \<open>t\<close> are the cells \<open>t * 10000, \<dots>, t * 10000 + 9999\<close> of the stream.
\<close>

lemma read_image_cells:
  assumes ts: "\<forall>t<9. \<forall>k<10000. ts ! t ! k = Some (g (cell_coord t k))"
  shows "length (read_dense ts) = 90000"
    and "distinct (map fst (read_dense ts))"
    and "row < 300 \<Longrightarrow> col < 300 \<Longrightarrow> map_of (read_dense ts) (row, col) = Some (g (row, col))"
    and "t < 9 \<Longrightarrow> k < 10000 \<Longrightarrow> read_dense ts ! (t * 10000 + k) = (cell_coord t k, g (cell_coord t k))"
proof -
  let ?slots = "List.product [0..<9] [0..<10000 :: nat]"
  note r = read_dense_image [OF ts]
  show "length (read_dense ts) = 90000"
    unfolding r by simp
  have f: "map fst (read_dense ts) = map (\<lambda>(t, k). cell_coord t k) ?slots"
    unfolding r by (simp add: comp_def case_prod_unfold)
  show d: "distinct (map fst (read_dense ts))"
    unfolding f distinct_map
  proof (intro conjI)
    show "distinct ?slots" by (simp add: distinct_product)
    show "inj_on (\<lambda>(t, k). cell_coord t k) (set ?slots)" by (rule inj_cell_coord)
  qed
  {
    assume rc: "row < 300" "col < 300"
    then have c: "in_domain (row, col)" by (simp add: in_domain_iff)
    from slot_in_range [OF c] cell_coord_slot [OF c]
    have "\<exists>t<9. \<exists>k<10000. cell_coord t k = (row, col)"
      by blast
    then have "((row, col), g (row, col)) \<in> set (read_dense ts)"
      unfolding r by force
    with d show "map_of (read_dense ts) (row, col) = Some (g (row, col))"
      by simp
  }
  {
    assume tk: "t < 9" "k < 10000"
    then have "t * 10000 + k < 9 * 10000"
      by linarith
    then have n: "t * 10000 + k < length [0..<9 :: nat] * length [0..<10000 :: nat]"
      by simp
    from tk have dm: "(t * 10000 + k) div 10000 = t" "(t * 10000 + k) mod 10000 = k"
      by simp_all
    from tk have "?slots ! (t * 10000 + k) = (t, k)"
      unfolding List.product_nth [OF n] by (simp add: dm)
    with n show "read_dense ts ! (t * 10000 + k) = (cell_coord t k, g (cell_coord t k))"
      unfolding r by simp
  }
qed

lemma write_palette_image:
  "\<exists>a. write_image palette_image = Some a \<and>
     (\<forall>t<9. \<forall>k<10000. R_tiles a ! t ! k = Some (R_palette ! panel_of (cell_coord t k))) \<and>
     (\<forall>t<9. \<forall>k<10000. G_tiles a ! t ! k = Some (G_palette ! panel_of (cell_coord t k))) \<and>
     (\<forall>t<9. \<forall>k<10000. B_tiles a ! t ! k = Some (B_palette ! panel_of (cell_coord t k)))"
proof -
  have m: "map (\<lambda>(c, r, g, b). (c, r)) palette_image
        = map (\<lambda>c. (c, R_palette ! panel_of c)) (List.product [0..<300] [0..<300])"
    "map (\<lambda>(c, r, g, b). (c, g)) palette_image
        = map (\<lambda>c. (c, G_palette ! panel_of c)) (List.product [0..<300] [0..<300])"
    "map (\<lambda>(c, r, g, b). (c, b)) palette_image
        = map (\<lambda>c. (c, B_palette ! panel_of c)) (List.product [0..<300] [0..<300])"
    by (simp_all add: palette_image_def comp_def)
  from write_dense_image [of "\<lambda>c. R_palette ! panel_of c"] obtain rs where
    r: "write_dense (map (\<lambda>c. (c, R_palette ! panel_of c)) (List.product [0..<300] [0..<300])) = Some rs"
      "\<forall>t<9. \<forall>k<10000. rs ! t ! k = Some (R_palette ! panel_of (cell_coord t k))"
    by blast
  from write_dense_image [of "\<lambda>c. G_palette ! panel_of c"] obtain gs where
    g: "write_dense (map (\<lambda>c. (c, G_palette ! panel_of c)) (List.product [0..<300] [0..<300])) = Some gs"
      "\<forall>t<9. \<forall>k<10000. gs ! t ! k = Some (G_palette ! panel_of (cell_coord t k))"
    by blast
  from write_dense_image [of "\<lambda>c. B_palette ! panel_of c"] obtain bs where
    b: "write_dense (map (\<lambda>c. (c, B_palette ! panel_of c)) (List.product [0..<300] [0..<300])) = Some bs"
      "\<forall>t<9. \<forall>k<10000. bs ! t ! k = Some (B_palette ! panel_of (cell_coord t k))"
    by blast
  have "write_image palette_image = Some \<lparr>R_tiles = rs, G_tiles = gs, B_tiles = bs\<rparr>"
    unfolding write_image_def m r(1) g(1) b(1) by simp
  with r(2) g(2) b(2) show ?thesis by simp
qed

lemma cell_coord_panel:
  assumes "t < 9" and "k < 10000"
  shows "fst (cell_coord t k) div 100 = t mod 3" and "snd (cell_coord t k) div 100 = t div 3"
proof -
  from assms have "k div 100 < 100" "k mod 100 < 100" by simp_all
  then show "fst (cell_coord t k) div 100 = t mod 3" "snd (cell_coord t k) div 100 = t div 3"
    by (simp_all add: cell_coord_eq)
qed

lemma palette_image_cells:
  assumes w: "write_image palette_image = Some a"
  shows "length (read_dense (R_tiles a)) = 90000 \<and> length (read_dense (G_tiles a)) = 90000 \<and>
      length (read_dense (B_tiles a)) = 90000"
    and "distinct (map fst (read_dense (R_tiles a))) \<and> distinct (map fst (read_dense (G_tiles a))) \<and>
      distinct (map fst (read_dense (B_tiles a)))"
    and "row < 300 \<Longrightarrow> col < 300 \<Longrightarrow>
      map_of (read_dense (R_tiles a)) (row, col) = Some (R_palette ! (3 * (row div 100) + col div 100)) \<and>
      map_of (read_dense (G_tiles a)) (row, col) = Some (G_palette ! (3 * (row div 100) + col div 100)) \<and>
      map_of (read_dense (B_tiles a)) (row, col) = Some (B_palette ! (3 * (row div 100) + col div 100))"
    and "t < 9 \<Longrightarrow> k < 10000 \<Longrightarrow>
      read_dense (R_tiles a) ! (t * 10000 + k) = (cell_coord t k, R_palette ! (3 * (t mod 3) + t div 3)) \<and>
      read_dense (G_tiles a) ! (t * 10000 + k) = (cell_coord t k, G_palette ! (3 * (t mod 3) + t div 3)) \<and>
      read_dense (B_tiles a) ! (t * 10000 + k) = (cell_coord t k, B_palette ! (3 * (t mod 3) + t div 3))"
proof -
  from write_palette_image w have
    r: "\<forall>t<9. \<forall>k<10000. R_tiles a ! t ! k = Some (R_palette ! panel_of (cell_coord t k))" and
    g: "\<forall>t<9. \<forall>k<10000. G_tiles a ! t ! k = Some (G_palette ! panel_of (cell_coord t k))" and
    b: "\<forall>t<9. \<forall>k<10000. B_tiles a ! t ! k = Some (B_palette ! panel_of (cell_coord t k))"
    by auto
  show "length (read_dense (R_tiles a)) = 90000 \<and> length (read_dense (G_tiles a)) = 90000 \<and>
      length (read_dense (B_tiles a)) = 90000"
    using read_image_cells(1) [OF r] read_image_cells(1) [OF g] read_image_cells(1) [OF b]
    by blast
  show "distinct (map fst (read_dense (R_tiles a))) \<and> distinct (map fst (read_dense (G_tiles a))) \<and>
      distinct (map fst (read_dense (B_tiles a)))"
    using read_image_cells(2) [OF r] read_image_cells(2) [OF g] read_image_cells(2) [OF b]
    by blast
  {
    assume rc: "row < 300" "col < 300"
    from read_image_cells(3) [OF r rc] read_image_cells(3) [OF g rc] read_image_cells(3) [OF b rc]
    show "map_of (read_dense (R_tiles a)) (row, col) = Some (R_palette ! (3 * (row div 100) + col div 100)) \<and>
      map_of (read_dense (G_tiles a)) (row, col) = Some (G_palette ! (3 * (row div 100) + col div 100)) \<and>
      map_of (read_dense (B_tiles a)) (row, col) = Some (B_palette ! (3 * (row div 100) + col div 100))"
      by (simp add: panel_of_def)
  }
  {
    assume tk: "t < 9" "k < 10000"
    from read_image_cells(4) [OF r tk] read_image_cells(4) [OF g tk] read_image_cells(4) [OF b tk]
    show "read_dense (R_tiles a) ! (t * 10000 + k) = (cell_coord t k, R_palette ! (3 * (t mod 3) + t div 3)) \<and>
      read_dense (G_tiles a) ! (t * 10000 + k) = (cell_coord t k, G_palette ! (3 * (t mod 3) + t div 3)) \<and>
      read_dense (B_tiles a) ! (t * 10000 + k) = (cell_coord t k, B_palette ! (3 * (t mod 3) + t div 3))"
      unfolding panel_of_cell_coord [OF tk] by blast
  }
qed



text \<open>
  The check of the example and the cells read. \<^verbatim>\<open>check_results\<close> walks the buffer of
  \<^verbatim>\<open>main\<close> as 300 rows of 300 pixels per attribute (\<open>check_successful_iff\<close>). It
  accepts the cells of the read when the buffer holds them in row-major order of their
  coordinates, the cell of \<open>(row, col)\<close> at the index \<open>row * 300 + col\<close>. It does not
  accept them when the buffer holds them in the order of the stream, tile after tile:
  there the first 10000 values of an attribute are those of one panel, where
  \<^verbatim>\<open>check_results\<close> expects the first 100 rows of the image. In which order
  \<^verbatim>\<open>tiledb_array_read\<close> fills the buffer of \<^verbatim>\<open>main\<close> is decided by code that is not
  part of the sources at hand.
\<close>

lemma check_results_row_major:
  assumes w: "write_image palette_image = Some a"
    and len: "length buf = 270000"
    and lay: "\<And>row col. row < 300 \<Longrightarrow> col < 300 \<Longrightarrow>
      map_of (read_dense (R_tiles a)) (row, col) = Some (buf ! (row * 300 + col)) \<and>
      map_of (read_dense (G_tiles a)) (row, col) = Some (buf ! (90000 + (row * 300 + col))) \<and>
      map_of (read_dense (B_tiles a)) (row, col) = Some (buf ! (180000 + (row * 300 + col)))"
  shows "check_successful buf"
  unfolding check_successful_iff [OF len]
proof (intro allI impI)
  fix pr i pc k :: nat
  assume b: "pr < 3" "i < 100" "pc < 3" "k < 100"
  define row where "row = pr * 100 + i"
  define col where "col = pc * 100 + k"
  from b have rc: "row < 300" "col < 300" and d: "row div 100 = pr" "col div 100 = pc"
    by (simp_all add: row_def col_def)
  have idx: "(pr * 100 + i) * 300 + pc * 100 + k = row * 300 + col"
    by (simp add: row_def col_def)
  from lay [OF rc] palette_image_cells(3) [OF w rc]
  have "buf ! (row * 300 + col) = R_palette ! (3 * pr + pc) \<and>
      buf ! (90000 + (row * 300 + col)) = G_palette ! (3 * pr + pc) \<and>
      buf ! (180000 + (row * 300 + col)) = B_palette ! (3 * pr + pc)"
    unfolding d by simp
  then show "pixel_ok buf (3 * pr + pc) ((pr * 100 + i) * 300 + pc * 100 + k)
      (90000 + ((pr * 100 + i) * 300 + pc * 100 + k)) (180000 + ((pr * 100 + i) * 300 + pc * 100 + k))"
    unfolding idx pixel_ok_def .
qed

lemma check_results_stream_order:
  assumes w: "write_image palette_image = Some a"
  shows "\<not> check_successful (stream_buffer a)"
proof
  assume ok: "check_successful (stream_buffer a)"
  note c = palette_image_cells [OF w]
  from c(1) have len: "length (stream_buffer a) = 270000"
    by (simp add: stream_buffer_def)
  from ok have "\<forall>pr<3. \<forall>i<100. \<forall>pc<3. \<forall>k<100.
        pixel_ok (stream_buffer a) (3 * pr + pc) ((pr * 100 + i) * 300 + pc * 100 + k)
          (90000 + ((pr * 100 + i) * 300 + pc * 100 + k)) (180000 + ((pr * 100 + i) * 300 + pc * 100 + k))"
    unfolding check_successful_iff [OF len] .
  from this [rule_format, of 0 0 1 0] have "stream_buffer a ! 100 = R_palette ! 1"
    by (simp add: pixel_ok_def)
  moreover from c(1) have "stream_buffer a ! 100 = snd (read_dense (R_tiles a) ! (0 * 10000 + 100))"
    by (simp add: stream_buffer_def nth_append)
  moreover from c(4) [of 0 100] have "snd (read_dense (R_tiles a) ! (0 * 10000 + 100)) = R_palette ! 0"
    by simp
  ultimately show False
    by (simp add: R_palette_def)
qed


end
